theory Spec2Isabelle
  imports Complex_Main
begin

section \<open>Numbers\<close>

text \<open>
  Prices, amounts and scores are IEEE doubles in the program. They are modelled as exact
  reals extended by the three special values a double can take, so that the comparisons
  and divisions by zero of the source have the outcome they have there. Rounding,
  overflow of finite values and the sign of zero are not modelled.
\<close>

datatype pyfloat = Fin real | PInf | NInf | NaN

datatype exn =
    IndexError | ZeroDivisionError | ValueError | TypeError | AttributeError | FitError

fun is_nan :: "pyfloat \<Rightarrow> bool" where
  "is_nan NaN = True"
| "is_nan _ = False"

fun fl_less :: "pyfloat \<Rightarrow> pyfloat \<Rightarrow> bool" where
  "fl_less (Fin x) (Fin y) = (x < y)"
| "fl_less (Fin x) PInf = True"
| "fl_less NInf (Fin y) = True"
| "fl_less NInf PInf = True"
| "fl_less _ _ = False"

fun fl_le :: "pyfloat \<Rightarrow> pyfloat \<Rightarrow> bool" where
  "fl_le (Fin x) (Fin y) = (x \<le> y)"
| "fl_le NaN _ = False"
| "fl_le _ NaN = False"
| "fl_le NInf _ = True"
| "fl_le _ PInf = True"
| "fl_le _ _ = False"

definition fl_gt :: "pyfloat \<Rightarrow> pyfloat \<Rightarrow> bool" where
  "fl_gt a b = fl_less b a"

definition fl_ge :: "pyfloat \<Rightarrow> pyfloat \<Rightarrow> bool" where
  "fl_ge a b = fl_le b a"

text \<open>The infinity a nonzero finite factor turns into; \<open>0 * inf\<close> is not a number.\<close>

definition signed_inf :: "real \<Rightarrow> pyfloat" where
  "signed_inf x = (if 0 < x then PInf else if x < 0 then NInf else NaN)"

fun fl_neg :: "pyfloat \<Rightarrow> pyfloat" where
  "fl_neg (Fin x) = Fin (- x)"
| "fl_neg PInf = NInf"
| "fl_neg NInf = PInf"
| "fl_neg NaN = NaN"

fun fl_add :: "pyfloat \<Rightarrow> pyfloat \<Rightarrow> pyfloat" where
  "fl_add (Fin x) (Fin y) = Fin (x + y)"
| "fl_add NaN _ = NaN"
| "fl_add _ NaN = NaN"
| "fl_add PInf NInf = NaN"
| "fl_add NInf PInf = NaN"
| "fl_add PInf _ = PInf"
| "fl_add NInf _ = NInf"
| "fl_add _ PInf = PInf"
| "fl_add _ NInf = NInf"

definition fl_sub :: "pyfloat \<Rightarrow> pyfloat \<Rightarrow> pyfloat" where
  "fl_sub a b = fl_add a (fl_neg b)"

fun fl_mul :: "pyfloat \<Rightarrow> pyfloat \<Rightarrow> pyfloat" where
  "fl_mul (Fin x) (Fin y) = Fin (x * y)"
| "fl_mul NaN _ = NaN"
| "fl_mul _ NaN = NaN"
| "fl_mul (Fin x) PInf = signed_inf x"
| "fl_mul (Fin x) NInf = signed_inf (- x)"
| "fl_mul PInf (Fin y) = signed_inf y"
| "fl_mul NInf (Fin y) = signed_inf (- y)"
| "fl_mul PInf PInf = PInf"
| "fl_mul NInf NInf = PInf"
| "fl_mul PInf NInf = NInf"
| "fl_mul NInf PInf = NInf"

text \<open>
  Division as numpy scalars do it: a zero divisor gives an infinity or NaN (and a warning),
  never an exception.
\<close>

fun np_div :: "pyfloat \<Rightarrow> pyfloat \<Rightarrow> pyfloat" where
  "np_div (Fin x) (Fin y) = (if y = 0 then signed_inf x else Fin (x / y))"
| "np_div NaN _ = NaN"
| "np_div _ NaN = NaN"
| "np_div (Fin x) _ = Fin 0"
| "np_div PInf (Fin y) = (if 0 \<le> y then PInf else NInf)"
| "np_div NInf (Fin y) = (if 0 \<le> y then NInf else PInf)"
| "np_div _ _ = NaN"

text \<open>Division of two Python floats: a zero divisor raises.\<close>

definition py_div :: "pyfloat \<Rightarrow> pyfloat \<Rightarrow> exn + pyfloat" where
  "py_div a b = (if b = Fin 0 then Inl ZeroDivisionError else Inr (np_div a b))"

text \<open>
  A division with one operand that is a Python number and one that is a numpy scalar when
  \<open>numpy\<close> holds (numpy then does the division), a Python float otherwise.
\<close>

definition div_by :: "bool \<Rightarrow> pyfloat \<Rightarrow> pyfloat \<Rightarrow> exn + pyfloat" where
  "div_by numpy a b = (if numpy then Inr (np_div a b) else py_div a b)"

section \<open>Strategist\<close>

text \<open>
  \<open>InvestmentStrategist\<close> of \<open>strategist.py\<close>. \<open>np_prices\<close> records whether the entries
  of \<open>forecast_prices\<close> are numpy scalars (the persistence and recursive branches of the
  forecaster) or Python floats (the \<open>tolist()\<close> of the ARIMA branch, or a list literal):
  the two differ in what a division by zero does.
\<close>

record strategist =
  forecast_prices :: "pyfloat list"
  np_prices :: bool
  investment_amount :: pyfloat

definition days :: "strategist \<Rightarrow> nat" where
  "days s = length (forecast_prices s)"

type_synonym point = "nat \<times> pyfloat"

definition all_le :: "pyfloat \<Rightarrow> pyfloat list \<Rightarrow> bool" where
  "all_le p xs = list_all (\<lambda>x. fl_le p x) xs"

definition all_ge :: "pyfloat \<Rightarrow> pyfloat list \<Rightarrow> bool" where
  "all_ge p xs = list_all (\<lambda>x. fl_ge p x) xs"

text \<open>\<open>prices[a:b]\<close> for \<open>0 \<le> a\<close>, \<open>0 \<le> b\<close>.\<close>

definition slice :: "'a list \<Rightarrow> nat \<Rightarrow> nat \<Rightarrow> 'a list" where
  "slice xs a b = drop a (take b xs)"

text \<open>The body of the loop of \<open>find_local_extrema\<close>, for day \<open>i\<close>.\<close>

definition extrema_step :: "pyfloat list \<Rightarrow> nat \<Rightarrow> point list \<times> point list \<Rightarrow> nat
    \<Rightarrow> point list \<times> point list" where
  "extrema_step prices window acc i =
     (let (buy_points, sell_points) = acc;
          before = slice prices (i - window) i;
          after = slice prices (i + 1) (i + window + 1);
          buy_points' =
            (if all_le (prices ! i) before \<and> all_le (prices ! i) after
             then buy_points @ [(i, prices ! i)] else buy_points);
          sell_points' =
            (if all_ge (prices ! i) before \<and> all_ge (prices ! i) after
             then sell_points @ [(i, prices ! i)] else sell_points)
      in (buy_points', sell_points'))"

text \<open>
  \<open>range(window, self.days - window)\<close> is empty when \<open>days < 2 * window\<close>; so is
  \<open>[window..<days - window]\<close> with the truncating subtraction of \<open>nat\<close>.
\<close>

definition find_local_extrema :: "strategist \<Rightarrow> nat \<Rightarrow> point list \<times> point list" where
  "find_local_extrema s window =
     foldl (extrema_step (forecast_prices s) window) ([], []) [window..<days s - window]"

datatype action = Hold | Buy | Sell

type_synonym signal = "action \<times> nat \<times> pyfloat"

text \<open>
  The loop of \<open>generate_trading_signals\<close>: the state is \<open>(signals, current_action)\<close>
  (\<open>last_buy_price\<close> and \<open>last_buy_day\<close> are written and never read). The test
  \<open>(day, price) in buy_points\<close> is membership by equality; a NaN price, which is equal
  to nothing in Python, is no extremum for any window above 0 and does not reach the loop.
\<close>

definition signal_step :: "point list \<Rightarrow> point list \<Rightarrow> signal list \<times> action \<Rightarrow> point
    \<Rightarrow> signal list \<times> action" where
  "signal_step buy_points sell_points st pt =
     (let (signals, current_action) = st; (day, price) = pt in
      if (day, price) \<in> set buy_points \<and> current_action \<noteq> Buy
        then (signals @ [(Buy, day, price)], Buy)
      else if (day, price) \<in> set sell_points \<and> current_action = Buy
        then (signals @ [(Sell, day, price)], Sell)
      else (signals, current_action))"

definition generate_trading_signals :: "point list \<Rightarrow> point list \<Rightarrow> signal list" where
  "generate_trading_signals buy_points sell_points =
     (let all_points = sort_key fst (buy_points @ sell_points)
      in fst (foldl (signal_step buy_points sell_points) ([], Hold) all_points))"

text \<open>
  A line of the transaction log, as the values its format string prints: the day, the
  price, and the shares bought or the cash received; the two lines of the fallback print
  the day and the price only.
\<close>

datatype transaction =
    Bought nat pyfloat pyfloat
  | Sold nat pyfloat pyfloat
  | Final_sale nat pyfloat pyfloat
  | Bought_at nat pyfloat
  | Sold_at nat pyfloat

record profit_info =
  initial_investment :: pyfloat
  final_value :: pyfloat
  profit :: pyfloat
  profit_percent :: pyfloat
  transactions :: "transaction list"
  total_profit :: pyfloat

record portfolio =
  cash :: pyfloat
  shares :: pyfloat
  txs :: "transaction list"

text \<open>
  The body of the loop of \<open>calculate_profit\<close>. The prices of the signals are numpy
  scalars (\<open>find_local_extrema\<close> reads them from an array), so \<open>cash / price\<close> does not
  raise.
\<close>

definition profit_step :: "portfolio \<Rightarrow> signal \<Rightarrow> portfolio" where
  "profit_step p sg =
     (let (act, day, price) = sg in
      if act = Buy \<and> fl_gt (cash p) (Fin 0) then
        (let shares_bought = np_div (cash p) price in
         \<lparr>cash = Fin 0, shares = fl_add (shares p) shares_bought,
          txs = txs p @ [Bought day price shares_bought]\<rparr>)
      else if act = Sell \<and> fl_gt (shares p) (Fin 0) then
        (let cash' = fl_mul (shares p) price in
         \<lparr>cash = cash', shares = Fin 0, txs = txs p @ [Sold day price cash']\<rparr>)
      else p)"

definition initial_portfolio :: "strategist \<Rightarrow> portfolio" where
  "initial_portfolio s = \<lparr>cash = investment_amount s, shares = Fin 0, txs = []\<rparr>"

definition run_signals :: "strategist \<Rightarrow> signal list \<Rightarrow> portfolio" where
  "run_signals s sigs = foldl profit_step (initial_portfolio s) sigs"

text \<open>
  The final valuation: \<open>self.forecast_prices[-1]\<close> raises on an empty list; \<open>shares\<close> is
  not reset.
\<close>

definition final_valuation :: "strategist \<Rightarrow> portfolio \<Rightarrow> exn + portfolio" where
  "final_valuation s p =
     (if fl_gt (shares p) (Fin 0) then
        (if forecast_prices s = [] then Inl IndexError
         else
           (let final_price = last (forecast_prices s);
                cash' = fl_mul (shares p) final_price
            in Inr (p\<lparr>cash := cash', txs := txs p @ [Final_sale (days s) final_price cash']\<rparr>)))
      else Inr p)"

text \<open>
  With no signals \<open>calculate_profit\<close> returns \<open>0\<close> and a message instead of the record.
  \<open>profit / self.investment_amount\<close> divides two Python numbers exactly when no sale has
  happened, and then raises exactly when the amount is zero: a zero amount never buys.
\<close>

datatype profit_result = No_signals | Info profit_info

definition calculate_profit :: "strategist \<Rightarrow> signal list \<Rightarrow> exn + (pyfloat \<times> profit_result)" where
  "calculate_profit s trading_signals =
     (if trading_signals = [] then Inr (Fin 0, No_signals)
      else
        (case final_valuation s (run_signals s trading_signals) of
           Inl e \<Rightarrow> Inl e
         | Inr p \<Rightarrow>
            (let profit' = fl_sub (cash p) (investment_amount s) in
             if investment_amount s = Fin 0 then Inl ZeroDivisionError
             else
               (let profit_percent' = fl_mul (np_div profit' (investment_amount s)) (Fin 100) in
                Inr (profit',
                  Info \<lparr>initial_investment = investment_amount s, final_value = cash p,
                    profit = profit', profit_percent = profit_percent',
                    transactions = txs p, total_profit = profit'\<rparr>)))))"

text \<open>
  The recommendation text, as the data its lines print: the fallback text is a constant;
  the trading text lists the first three buy points, the first three sell points and the
  first five signals.
\<close>

datatype recommendation =
    Hold_text
  | Trading_text "point list" "point list" "signal list"
  | Buy_and_hold_text

definition format_recommendations :: "signal list \<Rightarrow> point list \<Rightarrow> point list \<Rightarrow> recommendation" where
  "format_recommendations signals buy_points sell_points =
     (if signals = [] then Hold_text
      else Trading_text (take 3 buy_points) (take 3 sell_points) (take 5 signals))"

text \<open>
  \<open>_generate_fallback_recommendations\<close>: buy at the first forecast price, sell at the
  last. Both divisions are between Python numbers unless the prices are numpy scalars.
\<close>

definition generate_fallback_recommendations :: "strategist \<Rightarrow> exn + (recommendation \<times> profit_info)" where
  "generate_fallback_recommendations s =
     (if forecast_prices s = [] then Inl IndexError
      else
        (let initial_price = hd (forecast_prices s);
             final_price = last (forecast_prices s)
         in case div_by (np_prices s) (investment_amount s) initial_price of
              Inl e \<Rightarrow> Inl e
            | Inr shares' \<Rightarrow>
               (let final_value' = fl_mul shares' final_price;
                    profit' = fl_sub final_value' (investment_amount s)
                in case div_by (np_prices s) profit' (investment_amount s) of
                     Inl e \<Rightarrow> Inl e
                   | Inr q \<Rightarrow>
                      Inr (Buy_and_hold_text,
                        \<lparr>initial_investment = investment_amount s, final_value = final_value',
                         profit = profit', profit_percent = fl_mul q (Fin 100),
                         transactions =
                           [Bought_at 0 initial_price, Sold_at (days s) final_price],
                         total_profit = profit'\<rparr>))))"

text \<open>The \<open>try\<close> block of \<open>generate_recommendations\<close>, with the default window 3.\<close>

definition recommendations_body :: "strategist \<Rightarrow> exn + (recommendation \<times> profit_info)" where
  "recommendations_body s =
     (let (buy_points, sell_points) = find_local_extrema s 3 in
      if buy_points = [] \<and> sell_points = [] then generate_fallback_recommendations s
      else
        (let signals = generate_trading_signals buy_points sell_points in
         if signals = [] then generate_fallback_recommendations s
         else
           (case calculate_profit s signals of
              Inl e \<Rightarrow> Inl e
            | Inr (profit', No_signals) \<Rightarrow> Inl TypeError
            | Inr (profit', Info info) \<Rightarrow>
                Inr (format_recommendations signals buy_points sell_points, info))))"

text \<open>
  \<open>generate_recommendations\<close>: an exception of the body is caught and the fallback is
  called again, outside any handler.
\<close>

definition generate_recommendations :: "strategist \<Rightarrow> exn + (recommendation \<times> profit_info)" where
  "generate_recommendations s =
     (case recommendations_body s of
        Inl e \<Rightarrow> generate_fallback_recommendations s
      | Inr r \<Rightarrow> Inr r)"

section \<open>Data frames\<close>

text \<open>
  The part of pandas the program uses, as its documentation describes it, on a frame
  whose rows keep their index label: the position of the observation in the loaded
  series. A missing cell is \<open>NaN\<close>. Column names are the labels the program writes:
  \<open>Lag i\<close> is \<open>f'lag_{i}'\<close>.
\<close>

datatype column = Close | Lag nat | Target | Rolling_mean_7 | Rolling_std_7 | Price_change

record frame =
  columns :: "column list"
  rows :: "(nat \<times> pyfloat list) list"

type_synonym series = "(nat \<times> pyfloat) list"

text \<open>\<open>load_data\<close> returns \<open>df[['Close']]\<close>: the frame of one column.\<close>

definition close_frame :: "pyfloat list \<Rightarrow> frame" where
  "close_frame closes = \<lparr>columns = [Close], rows = map (\<lambda>(i, c). (i, [c])) (enumerate 0 closes)\<rparr>"

definition col_pos :: "column \<Rightarrow> column list \<Rightarrow> nat" where
  "col_pos c cs = length (takeWhile (\<lambda>x. x \<noteq> c) cs)"

text \<open>\<open>df[c]\<close> for a column the frame has.\<close>

definition column_values :: "frame \<Rightarrow> column \<Rightarrow> pyfloat list" where
  "column_values f c = map (\<lambda>(i, r). r ! col_pos c (columns f)) (rows f)"

definition column_series :: "frame \<Rightarrow> column \<Rightarrow> series" where
  "column_series f c = map (\<lambda>(i, r). (i, r ! col_pos c (columns f))) (rows f)"

text \<open>\<open>df[c] = vs\<close> for a column the frame does not have yet.\<close>

definition new_column :: "frame \<Rightarrow> column \<Rightarrow> pyfloat list \<Rightarrow> frame" where
  "new_column f c vs =
     \<lparr>columns = columns f @ [c], rows = map (\<lambda>((i, r), v). (i, r @ [v])) (zip (rows f) vs)\<rparr>"

text \<open>\<open>Series.shift(k)\<close>: the values move \<open>k\<close> positions down (up when \<open>k < 0\<close>).\<close>

definition shift :: "int \<Rightarrow> pyfloat list \<Rightarrow> pyfloat list" where
  "shift k vs =
     (let n = length vs in
      if 0 \<le> k then replicate (min (nat k) n) NaN @ take (n - nat k) vs
      else drop (nat (- k)) vs @ replicate (min (nat (- k)) n) NaN)"

definition dropna :: "frame \<Rightarrow> frame" where
  "dropna f = f\<lparr>rows := filter (\<lambda>(i, r). \<not> list_ex is_nan r) (rows f)\<rparr>"

definition drop_columns :: "frame \<Rightarrow> column list \<Rightarrow> frame" where
  "drop_columns f cs =
     \<lparr>columns = filter (\<lambda>c. c \<notin> set cs) (columns f),
      rows = map (\<lambda>(i, r). (i, map snd (filter (\<lambda>(c, v). c \<notin> set cs) (zip (columns f) r))))
               (rows f)\<rparr>"

text \<open>
  The bound of a Python slice on a sequence of length \<open>n\<close>: a negative bound counts from
  the end, and a bound outside the sequence is clipped.
\<close>

definition slice_index :: "nat \<Rightarrow> int \<Rightarrow> nat" where
  "slice_index n k = (if k < 0 then nat (max 0 (int n + k)) else min n (nat k))"

definition py_upto :: "'a list \<Rightarrow> int \<Rightarrow> 'a list" where
  "py_upto xs k = take (slice_index (length xs) k) xs"

definition py_from :: "'a list \<Rightarrow> int \<Rightarrow> 'a list" where
  "py_from xs k = drop (slice_index (length xs) k) xs"

definition iloc_upto :: "frame \<Rightarrow> int \<Rightarrow> frame" where
  "iloc_upto f k = f\<lparr>rows := py_upto (rows f) k\<rparr>"

definition iloc_from :: "frame \<Rightarrow> int \<Rightarrow> frame" where
  "iloc_from f k = f\<lparr>rows := py_from (rows f) k\<rparr>"

definition frame_values :: "frame \<Rightarrow> pyfloat list list" where
  "frame_values f = map snd (rows f)"

text \<open>The loop \<open>for i in range(1, n + 1): df[f'lag_{i}'] = df['Close'].shift(i)\<close>.\<close>

definition add_lag :: "frame \<Rightarrow> nat \<Rightarrow> frame" where
  "add_lag f i = new_column f (Lag i) (shift (int i) (column_values f Close))"

definition add_lags :: "frame \<Rightarrow> nat \<Rightarrow> frame" where
  "add_lags f n = foldl add_lag f [1..<n + 1]"

section \<open>Feature builder\<close>

text \<open>
  \<open>rolling(window=7)\<close>: the seven values ending at each row, a statistic of them where
  all seven are there and none is missing.
\<close>

fun fl_sum :: "pyfloat list \<Rightarrow> pyfloat" where
  "fl_sum [] = Fin 0"
| "fl_sum (x # xs) = fl_add x (fl_sum xs)"

fun fl_sqrt :: "pyfloat \<Rightarrow> pyfloat" where
  "fl_sqrt (Fin x) = (if x < 0 then NaN else Fin (sqrt x))"
| "fl_sqrt PInf = PInf"
| "fl_sqrt _ = NaN"

definition fl_mean :: "pyfloat list \<Rightarrow> pyfloat" where
  "fl_mean w = np_div (fl_sum w) (Fin (real (length w)))"

definition fl_std :: "pyfloat list \<Rightarrow> pyfloat" where
  "fl_std w =
     (let m = fl_mean w
      in fl_sqrt (np_div (fl_sum (map (\<lambda>x. fl_mul (fl_sub x m) (fl_sub x m)) w))
                   (Fin (real (length w) - 1))))"

definition rolling :: "nat \<Rightarrow> (pyfloat list \<Rightarrow> pyfloat) \<Rightarrow> pyfloat list \<Rightarrow> pyfloat list" where
  "rolling w stat vs =
     map (\<lambda>t. if t + 1 < w \<or> list_ex is_nan (slice vs (t + 1 - w) (t + 1)) then NaN
               else stat (slice vs (t + 1 - w) (t + 1)))
       [0..<length vs]"

definition pct_change :: "pyfloat list \<Rightarrow> pyfloat list" where
  "pct_change vs = map (\<lambda>(v, prev). fl_sub (np_div v prev) (Fin 1)) (zip vs (shift 1 vs))"

text \<open>\<open>DataLoader.prepare_features\<close>.\<close>

definition prepare_features :: "pyfloat list \<Rightarrow> nat \<Rightarrow> frame" where
  "prepare_features closes lag_periods =
     (let f1 = add_lags (close_frame closes) lag_periods;
          f2 = new_column f1 Rolling_mean_7 (rolling 7 fl_mean (column_values f1 Close));
          f3 = new_column f2 Rolling_std_7 (rolling 7 fl_std (column_values f2 Close));
          f4 = new_column f3 Price_change (pct_change (column_values f3 Close))
      in dropna f4)"

section \<open>Model trainer\<close>

text \<open>
  A fitted model, as far as the program uses one: the name of its class, the one-step
  \<open>predict\<close> of a scikit-learn estimator and the multi-step \<open>forecast\<close> of a statsmodels
  result. Either call can raise.
\<close>

record model =
  type_name :: string
  predict :: "pyfloat list \<Rightarrow> exn + pyfloat"
  forecast_steps :: "nat \<Rightarrow> exn + pyfloat list"

type_synonym ml_data = "frame \<times> frame \<times> series \<times> series"

text \<open>
  \<open>int(x)\<close> of a finite float: towards zero. The test size and the product
  \<open>len * (1 - test_size)\<close> are exact reals here.
\<close>

definition py_int :: "real \<Rightarrow> int" where
  "py_int x = (if 0 \<le> x then \<lfloor>x\<rfloor> else \<lceil>x\<rceil>)"

definition split_idx :: "nat \<Rightarrow> real \<Rightarrow> int" where
  "split_idx n test_size = py_int (real n * (1 - test_size))"

text \<open>
  \<open>prepare_ml_data\<close>: the table \<open>df_processed\<close> after \<open>dropna\<close>, then the features, the
  target and the time-based split.
\<close>

definition ml_table :: "pyfloat list \<Rightarrow> frame" where
  "ml_table closes =
     (let f1 = add_lags (close_frame closes) 30;
          f2 = new_column f1 Target (shift (- 1) (column_values f1 Close))
      in dropna f2)"

definition prepare_ml_data :: "pyfloat list \<Rightarrow> real \<Rightarrow> ml_data" where
  "prepare_ml_data closes test_size =
     (let df_processed = ml_table closes;
          X = drop_columns df_processed [Target, Close];
          y = column_series df_processed Target;
          k = split_idx (length (rows X)) test_size
      in (iloc_upto X k, iloc_from X k, py_upto y k, py_from y k))"

text \<open>The time-based split of \<open>train_arima\<close>, on the raw closing prices.\<close>

definition arima_split :: "pyfloat list \<Rightarrow> real \<Rightarrow> pyfloat list \<times> pyfloat list" where
  "arima_split closes test_size =
     (let k = split_idx (length closes) test_size in (py_upto closes k, py_from closes k))"

text \<open>
  The libraries that fit and score a candidate are not part of the program: each is a
  parameter that takes the split and either raises or gives the fitted model with its
  RMSE and MAPE on the test part.
\<close>

type_synonym fitted = "model \<times> pyfloat \<times> pyfloat"

record learners =
  fit_random_forest :: "ml_data \<Rightarrow> exn + fitted"
  fit_ridge :: "ml_data \<Rightarrow> exn + fitted"
  fit_arima :: "pyfloat list \<times> pyfloat list \<Rightarrow> exn + fitted"
  fit_linear :: "ml_data \<Rightarrow> exn + fitted"

record model_trainer =
  learn :: learners
  df :: "pyfloat list"
  test_size :: real

text \<open>What a training method returns: a tuple of three values, or of four.\<close>

datatype train_result =
    Tuple3 "model option" pyfloat pyfloat
  | Tuple4 "model option" pyfloat pyfloat string

definition train_random_forest :: "model_trainer \<Rightarrow> train_result" where
  "train_random_forest t =
     (case fit_random_forest (learn t) (prepare_ml_data (df t) (test_size t)) of
        Inl e \<Rightarrow> Tuple3 None PInf PInf
      | Inr (m, rmse, mape) \<Rightarrow> Tuple3 (Some m) rmse mape)"

definition train_ridge_regression :: "model_trainer \<Rightarrow> train_result" where
  "train_ridge_regression t =
     (case fit_ridge (learn t) (prepare_ml_data (df t) (test_size t)) of
        Inl e \<Rightarrow> Tuple3 None PInf PInf
      | Inr (m, rmse, mape) \<Rightarrow> Tuple3 (Some m) rmse mape)"

definition train_arima :: "model_trainer \<Rightarrow> train_result" where
  "train_arima t =
     (case fit_arima (learn t) (arima_split (df t) (test_size t)) of
        Inl e \<Rightarrow> Tuple3 None PInf PInf
      | Inr (m, rmse, mape) \<Rightarrow> Tuple3 (Some m) rmse mape)"

definition train_simple_lstm :: "model_trainer \<Rightarrow> train_result" where
  "train_simple_lstm t =
     (case fit_linear (learn t) (prepare_ml_data (df t) (test_size t)) of
        Inl e \<Rightarrow> Tuple4 None PInf PInf ''Failed''
      | Inr (m, rmse, mape) \<Rightarrow> Tuple4 (Some m) rmse mape ''Linear Regression (LSTM placeholder)'')"

text \<open>\<open>model, rmse, mape = train_func()\<close>: a tuple of another length raises.\<close>

fun unpack3 :: "train_result \<Rightarrow> exn + (model option \<times> pyfloat \<times> pyfloat)" where
  "unpack3 (Tuple3 m rmse mape) = Inr (m, rmse, mape)"
| "unpack3 (Tuple4 m rmse mape name) = Inl ValueError"

record selection =
  best_model :: "model option"
  best_rmse :: pyfloat
  best_model_name :: string
  results :: "string \<rightharpoonup> pyfloat \<times> pyfloat"

definition models_to_train :: "(string \<times> (model_trainer \<Rightarrow> train_result)) list" where
  "models_to_train =
     [(''Random Forest'', train_random_forest),
      (''Ridge Regression'', train_ridge_regression),
      (''ARIMA'', train_arima),
      (''LSTM'', train_simple_lstm)]"

text \<open>The body of the selection loop; an exception leaves the state as it is.\<close>

definition select_step :: "model_trainer \<Rightarrow> selection \<Rightarrow> string \<times> (model_trainer \<Rightarrow> train_result)
    \<Rightarrow> selection" where
  "select_step t st cand =
     (let (model_name, train_func) = cand in
      case unpack3 (train_func t) of
        Inl e \<Rightarrow> st
      | Inr (m, rmse, mape) \<Rightarrow>
          (let st' =
             (if m \<noteq> None \<and> fl_less rmse (best_rmse st)
              then st\<lparr>best_model := m, best_rmse := rmse, best_model_name := model_name\<rparr>
              else st)
           in st'\<lparr>results := (results st')(model_name \<mapsto> (rmse, mape))\<rparr>))"

definition initial_selection :: selection where
  "initial_selection = \<lparr>best_model = None, best_rmse = PInf, best_model_name = [], results = Map.empty\<rparr>"

definition train_and_select_best :: "model_trainer \<Rightarrow> model option \<times> pyfloat \<times> string" where
  "train_and_select_best t =
     (let st = foldl (select_step t) initial_selection models_to_train in
      if best_model st = None then (None, PInf, ''Persistence'')
      else (best_model st, best_rmse st, best_model_name st))"

section \<open>Forecaster\<close>

record forecaster =
  fc_model :: "model option"
  historical_data :: "pyfloat list"
  current_price :: pyfloat

text \<open>\<open>Forecaster.__init__\<close>: \<open>iloc[-1]\<close> of an empty column raises.\<close>

definition new_forecaster :: "model option \<Rightarrow> pyfloat list \<Rightarrow> exn + forecaster" where
  "new_forecaster m closes =
     (if closes = [] then Inl IndexError
      else Inr \<lparr>fc_model = m, historical_data = closes, current_price = last closes\<rparr>)"

text \<open>
  \<open>_get_last_features\<close>: the lags of the last row, without \<open>dropna\<close>; \<open>values[0]\<close> raises
  when there is no row.
\<close>

definition get_last_features :: "forecaster \<Rightarrow> exn + pyfloat list" where
  "get_last_features fc =
     (let df_processed = add_lags (close_frame (historical_data fc)) 30;
          last_row = drop_columns (iloc_from df_processed (- 1)) [Close]
      in case frame_values last_row of [] \<Rightarrow> Inl IndexError | v # vs \<Rightarrow> Inr v)"

text \<open>Reading and writing an array by a non-negative index.\<close>

definition get_item :: "'a list \<Rightarrow> nat \<Rightarrow> exn + 'a" where
  "get_item xs i = (if i < length xs then Inr (xs ! i) else Inl IndexError)"

definition set_item :: "'a list \<Rightarrow> nat \<Rightarrow> 'a \<Rightarrow> exn + 'a list" where
  "set_item xs i v = (if i < length xs then Inr (xs[i := v]) else Inl IndexError)"

text \<open>\<open>new_features[i] = new_features[i-1]\<close>, after an earlier assignment may have raised.\<close>

definition shift_feature :: "exn + pyfloat list \<Rightarrow> nat \<Rightarrow> exn + pyfloat list" where
  "shift_feature acc i =
     (case acc of
        Inl e \<Rightarrow> Inl e
      | Inr xs \<Rightarrow> (case get_item xs (i - 1) of Inl e \<Rightarrow> Inl e | Inr v \<Rightarrow> set_item xs i v))"

text \<open>\<open>_update_features\<close>: \<open>range(29, 0, -1)\<close> is \<open>29, 28, ..., 1\<close>.\<close>

definition update_features :: "pyfloat list \<Rightarrow> pyfloat \<Rightarrow> exn + pyfloat list" where
  "update_features current_features new_price =
     (case foldl shift_feature (Inr current_features) (rev [1..<30]) of
        Inl e \<Rightarrow> Inl e
      | Inr new_features \<Rightarrow> set_item new_features 0 new_price)"

text \<open>
  One pass of the loop of \<open>_recursive_forecast_ml\<close>, on the state
  \<open>(forecast, current_features)\<close>.
\<close>

definition forecast_step :: "model \<Rightarrow> pyfloat list \<times> pyfloat list
    \<Rightarrow> exn + (pyfloat list \<times> pyfloat list)" where
  "forecast_step m st =
     (let (forecast, current_features) = st in
      case predict m current_features of
        Inl e \<Rightarrow> Inl e
      | Inr next_price \<Rightarrow>
          (case update_features current_features next_price of
             Inl e \<Rightarrow> Inl e
           | Inr fs \<Rightarrow> Inr (forecast @ [next_price], fs)))"

fun forecast_loop :: "model \<Rightarrow> nat \<Rightarrow> pyfloat list \<times> pyfloat list
    \<Rightarrow> exn + (pyfloat list \<times> pyfloat list)" where
  "forecast_loop m 0 st = Inr st"
| "forecast_loop m (Suc n) st =
     (case forecast_step m st of Inl e \<Rightarrow> Inl e | Inr st' \<Rightarrow> forecast_loop m n st')"

text \<open>The \<open>try\<close> block of \<open>_recursive_forecast_ml\<close>; it is entered with a model.\<close>

definition recursive_forecast_body :: "forecaster \<Rightarrow> nat \<Rightarrow> exn + pyfloat list" where
  "recursive_forecast_body fc ndays =
     (case get_last_features fc of
        Inl e \<Rightarrow> Inl e
      | Inr current_features \<Rightarrow>
          (case fc_model fc of
             None \<Rightarrow> (if ndays = 0 then Inr [] else Inl AttributeError)
           | Some m \<Rightarrow>
               (case forecast_loop m ndays ([], current_features) of
                  Inl e \<Rightarrow> Inl e
                | Inr (forecast, fs) \<Rightarrow> Inr forecast)))"

definition recursive_forecast_ml :: "forecaster \<Rightarrow> nat \<Rightarrow> pyfloat list" where
  "recursive_forecast_ml fc ndays =
     (case recursive_forecast_body fc ndays of
        Inl e \<Rightarrow> replicate ndays (current_price fc)
      | Inr forecast \<Rightarrow> forecast)"

text \<open>\<open>type(self.model).__name__.lower()\<close> and the substring tests on it.\<close>

definition lower_char :: "char \<Rightarrow> char" where
  "lower_char c =
     (let n = (of_char c :: nat) in if 65 \<le> n \<and> n \<le> 90 then char_of (n + 32) else c)"

definition lower :: "string \<Rightarrow> string" where
  "lower s = map lower_char s"

fun starts_with :: "string \<Rightarrow> string \<Rightarrow> bool" where
  "starts_with [] s = True"
| "starts_with (p # ps) [] = False"
| "starts_with (p # ps) (c # cs) = (p = c \<and> starts_with ps cs)"

fun contains :: "string \<Rightarrow> string \<Rightarrow> bool" where
  "contains sub [] = (sub = [])"
| "contains sub (c # cs) = (starts_with sub (c # cs) \<or> contains sub cs)"

text \<open>
  \<open>forecast\<close>: the path and the current price. A statsmodels result that raises, or that
  is asked for by a name it does not answer to, ends in the handler.
\<close>

definition forecast :: "forecaster \<Rightarrow> nat \<Rightarrow> pyfloat list \<times> pyfloat" where
  "forecast fc ndays =
     (case fc_model fc of
        None \<Rightarrow> (replicate ndays (current_price fc), current_price fc)
      | Some m \<Rightarrow>
          (let model_type = lower (type_name m) in
           if contains ''arima'' model_type \<or> contains ''holt'' model_type then
             (case forecast_steps m ndays of
                Inl e \<Rightarrow> (replicate ndays (current_price fc), current_price fc)
              | Inr path \<Rightarrow> (path, current_price fc))
           else if contains ''forest'' model_type \<or> contains ''ridge'' model_type
                   \<or> contains ''regression'' model_type then
             (recursive_forecast_ml fc ndays, current_price fc)
           else (replicate ndays (current_price fc), current_price fc)))"

section \<open>Scenarios\<close>

text \<open>The forecast path of the worked example, with an investment of 1000.\<close>

definition scenario :: strategist where
  "scenario =
     \<lparr>forecast_prices = map Fin [100, 90, 80, 90, 100, 90, 80], np_prices = False,
      investment_amount = Fin 1000\<rparr>"

text \<open>
  A history of 31 closing prices of 100, and a regressor whose prediction succeeds on the
  seed vector and fails once its first feature is no longer 100.
\<close>

definition flat_history :: "pyfloat list" where
  "flat_history = replicate 31 (Fin 100)"

definition fails_second :: model where
  "fails_second =
     \<lparr>type_name = ''Ridge'',
      predict = (\<lambda>fs. if fs ! 0 = Fin 100 then Inr (Fin 50) else Inl ValueError),
      forecast_steps = (\<lambda>n. Inl AttributeError)\<rparr>"

definition failing_forecaster :: forecaster where
  "failing_forecaster =
     \<lparr>fc_model = Some fails_second, historical_data = flat_history, current_price = Fin 100\<rparr>"

text \<open>
  A history of the 40 closing prices 1, 2, ..., 40, and a forecaster on it.
\<close>

definition rising_history :: "pyfloat list" where
  "rising_history = map (\<lambda>i. Fin (real i)) [1..<41]"

definition rising_forecaster :: forecaster where
  "rising_forecaster = \<lparr>fc_model = None, historical_data = rising_history, current_price = Fin 40\<rparr>"

text \<open>
  A trainer whose four fits all succeed, the linear placeholder with the lowest RMSE.
\<close>

definition const_model :: "string \<Rightarrow> model" where
  "const_model name =
     \<lparr>type_name = name, predict = (\<lambda>fs. Inr (Fin 100)), forecast_steps = (\<lambda>n. Inr (replicate n (Fin 100)))\<rparr>"

definition linear_best :: model_trainer where
  "linear_best =
     \<lparr>learn =
        \<lparr>fit_random_forest = (\<lambda>d. Inr (const_model ''RandomForestRegressor'', Fin 5, Fin 0.05)),
         fit_ridge = (\<lambda>d. Inr (const_model ''Ridge'', Fin 4, Fin 0.04)),
         fit_arima = (\<lambda>d. Inr (const_model ''ARIMAResultsWrapper'', Fin 6, Fin 0.06)),
         fit_linear = (\<lambda>d. Inr (const_model ''LinearRegression'', Fin 1, Fin 0.01))\<rparr>,
      df = flat_history, test_size = 0.2\<rparr>"

section \<open>Predicates of the properties\<close>

text \<open>The action the \<open>i\<close>-th signal of an alternating sequence has: buy, sell, buy, ...\<close>

definition expected_action :: "nat \<Rightarrow> action" where
  "expected_action i = (if even i then Buy else Sell)"

text \<open>The state of the signal loop agrees with the signals emitted so far.\<close>

definition signal_state_ok :: "signal list \<times> action \<Rightarrow> bool" where
  "signal_state_ok st =
     (let (signals, current_action) = st in
      map fst signals = map expected_action [0..<length signals]
      \<and> current_action = (if signals = [] then Hold else expected_action (length signals - 1)))"





text \<open>The cells \<open>lag_1, ..., lag_n\<close> of the row of time step \<open>t\<close>.\<close>

definition lag_cells :: "pyfloat list \<Rightarrow> nat \<Rightarrow> nat \<Rightarrow> pyfloat list" where
  "lag_cells cs n t = map (\<lambda>i. shift (int i) cs ! t) [1..<n + 1]"

text \<open>A path that ends while shares are held, and two degenerate strategists.\<close>

definition held_signals :: "signal list" where
  "held_signals = [(Buy, 2, Fin 80), (Sell, 4, Fin 100), (Buy, 6, Fin 80)]"



definition empty_path :: strategist where
  "empty_path = \<lparr>forecast_prices = [], np_prices = False, investment_amount = Fin 1000\<rparr>"

definition single_zero :: strategist where
  "single_zero = \<lparr>forecast_prices = [Fin 0], np_prices = False, investment_amount = Fin 1000\<rparr>"

text \<open>The selection holds no model, or the name of one of the three candidates that unpack.\<close>

definition named_candidate :: "selection \<Rightarrow> bool" where
  "named_candidate st =
     (best_model st = None
      \<or> best_model_name st = ''Random Forest'' \<or> best_model_name st = ''Ridge Regression''
      \<or> best_model_name st = ''ARIMA'')"

text \<open>The cells of row \<open>t\<close> of the supervised table before \<open>dropna\<close>, and the rows that survive it.\<close>

definition ml_row :: "pyfloat list \<Rightarrow> nat \<Rightarrow> pyfloat list" where
  "ml_row cs t = cs ! t # lag_cells cs 30 t @ [shift (- 1) cs ! t]"

definition complete_steps :: "pyfloat list \<Rightarrow> nat list" where
  "complete_steps cs = filter (\<lambda>t. \<not> list_ex is_nan (ml_row cs t)) [0..<length cs]"

text \<open>
  The selection loop seen from its result: the candidates whose return value unpacks, in
  training order, as (name, model, RMSE); the step the loop takes on one of them; and
  what it means for a result to be the first candidate of lowest RMSE among those that
  came with a model.
\<close>

type_synonym candidate = "string \<times> model option \<times> pyfloat"

type_synonym best = "model option \<times> pyfloat \<times> string"

definition keep_best :: "best \<Rightarrow> candidate \<Rightarrow> best" where
  "keep_best b c =
     (case b of (bm, br, bn) \<Rightarrow>
        case c of (n, m, r) \<Rightarrow> if m \<noteq> None \<and> fl_less r br then (m, r, n) else b)"

definition unpacked_of :: "model_trainer \<Rightarrow> string \<times> (model_trainer \<Rightarrow> train_result) \<Rightarrow> candidate list" where
  "unpacked_of t cand =
     (case cand of (n, f) \<Rightarrow>
        case unpack3 (f t) of Inl e \<Rightarrow> [] | Inr (m, r, p) \<Rightarrow> [(n, m, r)])"

definition unpacked :: "model_trainer \<Rightarrow> candidate list" where
  "unpacked t = concat (map (unpacked_of t) models_to_train)"

definition best_of :: "selection \<Rightarrow> best" where
  "best_of st = (best_model st, best_rmse st, best_model_name st)"

definition usable :: "candidate \<Rightarrow> bool" where
  "usable c = (fst (snd c) \<noteq> None)"

definition first_lowest :: "candidate list \<Rightarrow> best \<Rightarrow> bool" where
  "first_lowest cs b =
     (case b of (bm, br, bn) \<Rightarrow>
        (bm = None \<and> br = PInf \<and> list_all (\<lambda>c. \<not> (usable c \<and> fl_less (snd (snd c)) PInf)) cs)
      \<or> (bm \<noteq> None
          \<and> (\<exists>i < length cs. cs ! i = (bn, bm, br)
                \<and> (\<forall>j < length cs. usable (cs ! j) \<longrightarrow> \<not> fl_less (snd (snd (cs ! j))) br)
                \<and> (\<forall>j < i. usable (cs ! j) \<longrightarrow> \<not> fl_le (snd (snd (cs ! j))) br))))"

section \<open>Strategist: the worked example\<close>

lemma upt_1_6: "[1..<6] = [1, 2, 3, 4, 5::nat]"
  by (simp add: upt_rec)

lemma scenario_extrema: "find_local_extrema scenario 1 = ([(2, Fin 80)], [(4, Fin 100)])"
  by (simp add: find_local_extrema_def scenario_def days_def upt_1_6 extrema_step_def slice_def
      all_le_def all_ge_def fl_ge_def)

lemma scenario_signals:
  "generate_trading_signals [(2, Fin 80)] [(4, Fin 100)] = [(Buy, 2, Fin 80), (Sell, 4, Fin 100)]"
  by (simp add: generate_trading_signals_def signal_step_def)

lemma scenario_profit:
  "calculate_profit scenario [(Buy, 2, Fin 80), (Sell, 4, Fin 100)] =
     Inr (Fin 250,
       Info \<lparr>initial_investment = Fin 1000, final_value = Fin 1250, profit = Fin 250,
         profit_percent = Fin 25,
         transactions = [Bought 2 (Fin 80) (Fin 12.5), Sold 4 (Fin 100) (Fin 1250)],
         total_profit = Fin 250\<rparr>)"
  by (simp add: calculate_profit_def run_signals_def initial_portfolio_def profit_step_def
      final_valuation_def fl_gt_def scenario_def fl_sub_def Let_def days_def)

text \<open>
  C5, as stated, fails: on the path \<open>[100, 90, 80, 90, 100, 90, 80]\<close> with window 1 the
  loop of \<open>find_local_extrema\<close> runs over the days 1 to 5 only, so day 6 (price 80) is
  not among the detected minima.
\<close>

theorem C5_day6_not_detected:
  "(6, Fin 80) \<notin> set (fst (find_local_extrema scenario 1))
   \<and> forecast_prices scenario ! 6 = Fin 80 \<and> days scenario = 7"
proof -
  have "fst (find_local_extrema scenario 1) = [(2, Fin 80)]"
    by (simp only: scenario_extrema fst_conv)
  then have "(6, Fin 80) \<notin> set (fst (find_local_extrema scenario 1))"
    by simp
  moreover have "forecast_prices scenario ! 6 = Fin 80 \<and> days scenario = 7"
    by (simp add: scenario_def days_def)
  ultimately show ?thesis by blast
qed

text \<open>
  C5, amended: on that path with window 1, \<open>find_local_extrema\<close> finds exactly one local
  minimum, at day 2 (price 80), and exactly one local maximum, at day 4 (price 100);
  \<open>generate_trading_signals\<close> gives exactly buy at day 2, sell at day 4; and
  \<open>calculate_profit\<close> with an investment of 1000 buys 12.5 shares at 80, sells them at
  100 and reports the final value 1250 and the profit 250, which is 25 percent.
\<close>

theorem C5_worked_example:
  "find_local_extrema scenario 1 = ([(2, Fin 80)], [(4, Fin 100)])
   \<and> generate_trading_signals (fst (find_local_extrema scenario 1))
        (snd (find_local_extrema scenario 1)) = [(Buy, 2, Fin 80), (Sell, 4, Fin 100)]
   \<and> calculate_profit scenario
        (generate_trading_signals (fst (find_local_extrema scenario 1))
           (snd (find_local_extrema scenario 1))) =
       Inr (Fin 250,
         Info \<lparr>initial_investment = Fin 1000, final_value = Fin 1250, profit = Fin 250,
           profit_percent = Fin 25,
           transactions = [Bought 2 (Fin 80) (Fin 12.5), Sold 4 (Fin 100) (Fin 1250)],
           total_profit = Fin 250\<rparr>)"
  by (simp only: scenario_extrema fst_conv snd_conv scenario_signals scenario_profit)

section \<open>Strategist: signals alternate\<close>

lemma signal_step_ok:
  "signal_state_ok st \<Longrightarrow> signal_state_ok (signal_step bp sp st pt)"
  by (cases st; cases pt)
     (auto simp: signal_state_ok_def signal_step_def expected_action_def split: if_splits)

lemma signal_loop_ok:
  "signal_state_ok st \<Longrightarrow> signal_state_ok (foldl (signal_step bp sp) st pts)"
  by (induction pts arbitrary: st) (simp_all add: signal_step_ok)

lemma signals_expected:
  "map fst (generate_trading_signals bp sp) =
     map expected_action [0..<length (generate_trading_signals bp sp)]"
proof -
  have "signal_state_ok ([], Hold)" by (simp add: signal_state_ok_def)
  then have "signal_state_ok (foldl (signal_step bp sp) ([], Hold) (sort_key fst (bp @ sp)))"
    by (rule signal_loop_ok)
  then show ?thesis
    by (simp add: generate_trading_signals_def signal_state_ok_def split: prod.splits)
qed

text \<open>
  C6: for all lists of minima and maxima, the signals of \<open>generate_trading_signals\<close>
  start with a buy (when there is one), no two consecutive signals have the same action,
  and the \<open>i\<close>-th signal is a buy for even \<open>i\<close> and a sell for odd \<open>i\<close>.
\<close>

theorem C6_signals_alternate:
  "(generate_trading_signals bp sp \<noteq> [] \<longrightarrow> fst (hd (generate_trading_signals bp sp)) = Buy)
   \<and> (\<forall>i. Suc i < length (generate_trading_signals bp sp) \<longrightarrow>
         fst (generate_trading_signals bp sp ! i) \<noteq> fst (generate_trading_signals bp sp ! Suc i))
   \<and> (\<forall>i < length (generate_trading_signals bp sp).
         fst (generate_trading_signals bp sp ! i) = expected_action i)"
proof -
  let ?s = "generate_trading_signals bp sp"
  have nth: "fst (?s ! i) = expected_action i" if "i < length ?s" for i
  proof -
    have "map fst ?s ! i = map expected_action [0..<length ?s] ! i"
      using signals_expected by simp
    with that show ?thesis by simp
  qed
  have a: "?s \<noteq> [] \<longrightarrow> fst (hd ?s) = Buy"
  proof
    assume "?s \<noteq> []"
    then have "0 < length ?s" by simp
    from nth[OF this] \<open>?s \<noteq> []\<close> show "fst (hd ?s) = Buy"
      by (simp add: hd_conv_nth expected_action_def)
  qed
  have b: "\<forall>i. Suc i < length ?s \<longrightarrow> fst (?s ! i) \<noteq> fst (?s ! Suc i)"
  proof (intro allI impI)
    fix i assume h: "Suc i < length ?s"
    then have "i < length ?s" by simp
    from nth[OF this] nth[OF h] show "fst (?s ! i) \<noteq> fst (?s ! Suc i)"
      by (simp add: expected_action_def)
  qed
  have c: "\<forall>i < length ?s. fst (?s ! i) = expected_action i"
    using nth by simp
  from a b c show ?thesis by blast
qed

lemma three_signals:
  "generate_trading_signals [(2, Fin 80), (6, Fin 80)] [(4, Fin 100)] = held_signals"
  by (simp add: generate_trading_signals_def signal_step_def held_signals_def)

theorem C6_signals_alternate_witness:
  "generate_trading_signals [(2, Fin 80), (6, Fin 80)] [(4, Fin 100)] = held_signals
   \<and> fst (hd (generate_trading_signals [(2, Fin 80), (6, Fin 80)] [(4, Fin 100)])) = Buy
   \<and> fst (generate_trading_signals [(2, Fin 80), (6, Fin 80)] [(4, Fin 100)] ! 1)
       \<noteq> fst (generate_trading_signals [(2, Fin 80), (6, Fin 80)] [(4, Fin 100)] ! Suc 1)"
proof -
  have len: "length (generate_trading_signals [(2, Fin 80), (6, Fin 80)] [(4, Fin 100)]) = 3"
    by (simp add: three_signals held_signals_def)
  then have ne: "generate_trading_signals [(2, Fin 80), (6, Fin 80)] [(4, Fin 100)] \<noteq> []"
    by auto
  from len have lt: "Suc 1 < length (generate_trading_signals [(2, Fin 80), (6, Fin 80)] [(4, Fin 100)])"
    by simp
  show ?thesis
    using C6_signals_alternate[of "[(2, Fin 80), (6, Fin 80)]" "[(4, Fin 100)]"] ne lt three_signals
    by blast
qed

section \<open>Strategist: the portfolio simulation\<close>











section \<open>Strategist: failures of the fallback\<close>

lemma no_extrema_on_short_path:
  "length (forecast_prices s) < 7 \<Longrightarrow> find_local_extrema s 3 = ([], [])"
  by (simp add: find_local_extrema_def days_def)

text \<open>
  C8: the strategist built from the single-point path \<open>[0.0]\<close> and the amount 1000 finds
  no extrema, the fallback divides the amount by the first price and raises, the handler
  calls the fallback again, and the exception leaves \<open>generate_recommendations\<close>. The
  empty path does the same with an index error.
\<close>

theorem C8_fallback_raises:
  "generate_recommendations single_zero = Inl ZeroDivisionError
   \<and> generate_recommendations empty_path = Inl IndexError"
  by (simp add: generate_recommendations_def recommendations_body_def no_extrema_on_short_path
      generate_fallback_recommendations_def div_by_def py_div_def single_zero_def empty_path_def)

text \<open>
  Where \<open>generate_recommendations\<close> does return: on a non-empty path, when the prices are
  numpy scalars or neither the first price nor the amount is zero.
\<close>

lemma fallback_returns:
  assumes "forecast_prices s \<noteq> []"
      and "np_prices s \<or> (hd (forecast_prices s) \<noteq> Fin 0 \<and> investment_amount s \<noteq> Fin 0)"
  shows "\<exists>r. generate_fallback_recommendations s = Inr r"
  using assms
  by (auto simp: generate_fallback_recommendations_def div_by_def py_div_def Let_def)

lemma generate_recommendations_returns:
  assumes "forecast_prices s \<noteq> []"
      and "np_prices s \<or> (hd (forecast_prices s) \<noteq> Fin 0 \<and> investment_amount s \<noteq> Fin 0)"
  shows "\<exists>r. generate_recommendations s = Inr r"
proof (cases "recommendations_body s")
  case (Inl e)
  with fallback_returns[OF assms] show ?thesis
    by (simp add: generate_recommendations_def)
next
  case (Inr r)
  then show ?thesis by (simp add: generate_recommendations_def)
qed

section \<open>Data frames: the lag columns\<close>



lemma length_shift: "length (shift k vs) = length vs"
  by (auto simp: shift_def Let_def)

lemma nth_shift_nonneg:
  "t < length vs \<Longrightarrow> shift (int i) vs ! t = (if t < i then NaN else vs ! (t - i))"
  by (auto simp: shift_def Let_def nth_append)

lemma nth_shift_minus1:
  "t < length vs \<Longrightarrow> shift (- 1) vs ! t = (if t + 1 < length vs then vs ! (t + 1) else NaN)"
  by (auto simp: shift_def Let_def nth_append)

lemma zip_map_upt:
  "length vs = n \<Longrightarrow> zip (map f [0..<n]) vs = map (\<lambda>t. (f t, vs ! t)) [0..<n]"
  by (rule nth_equalityI) auto

lemma close_frame_rows:
  "close_frame cs = \<lparr>columns = [Close], rows = map (\<lambda>t. (t, [cs ! t])) [0..<length cs]\<rparr>"
proof -
  have "map (\<lambda>(i, c). (i, [c])) (enumerate 0 cs) = map (\<lambda>t. (t, [cs ! t])) [0..<length cs]"
    by (rule nth_equalityI) (auto simp: nth_enumerate_eq)
  then show ?thesis by (simp add: close_frame_def)
qed


lemma add_lags_frame:
  "add_lags (close_frame cs) n =
     \<lparr>columns = Close # map Lag [1..<n + 1],
      rows = map (\<lambda>t. (t, cs ! t # lag_cells cs n t)) [0..<length cs]\<rparr>"
proof (induction n)
  case 0
  then show ?case by (simp add: add_lags_def close_frame_rows lag_cells_def)
next
  case (Suc n)
  let ?F = "\<lparr>columns = Close # map Lag [1..<n + 1],
      rows = map (\<lambda>t. (t, cs ! t # lag_cells cs n t)) [0..<length cs]\<rparr>"
  have step: "add_lags (close_frame cs) (Suc n) = add_lag (add_lags (close_frame cs) n) (Suc n)"
    by (simp add: add_lags_def)
  have cv: "column_values ?F Close = cs"
    by (simp add: column_values_def col_pos_def comp_def map_nth)
  have "add_lag ?F (Suc n) =
     \<lparr>columns = Close # map Lag [1..<Suc n + 1],
      rows = map (\<lambda>t. (t, cs ! t # lag_cells cs (Suc n) t)) [0..<length cs]\<rparr>"
    unfolding add_lag_def cv new_column_def
    by (simp add: zip_map_upt length_shift lag_cells_def)
  with step Suc.IH show ?case by simp
qed

lemma length_lag_cells: "length (lag_cells cs n t) = n"
  by (simp add: lag_cells_def)

lemma drop_close_cells:
  "length vs = length ns \<Longrightarrow>
   map snd (filter (\<lambda>(c, v). c \<notin> set [Close]) (zip (Close # map Lag ns) (x # vs))) = vs"
proof -
  assume len: "length vs = length ns"
  have "filter (\<lambda>(c, v). c \<notin> set [Close]) (zip (map Lag ns) vs) = zip (map Lag ns) vs"
    by (rule filter_True) (auto dest: set_zip_leftD)
  with len show ?thesis by simp
qed

lemma get_last_features_value:
  assumes "historical_data fc \<noteq> []"
  shows "get_last_features fc =
           Inr (lag_cells (historical_data fc) 30 (length (historical_data fc) - 1))"
proof -
  let ?cs = "historical_data fc"
  let ?n = "length ?cs"
  from assms have n: "0 < ?n" by simp
  have upt: "[?n - Suc 0..<?n] = [?n - Suc 0]"
  proof -
    from n obtain m where m: "?n = Suc m" by (cases ?n) auto
    show ?thesis unfolding m by simp
  qed
  have idx: "slice_index ?n (- 1) = ?n - 1"
    using n by (auto simp: slice_index_def)
  have "rows (iloc_from (add_lags (close_frame ?cs) 30) (- 1)) =
        [(?n - 1, ?cs ! (?n - 1) # lag_cells ?cs 30 (?n - 1))]"
    by (simp add: add_lags_frame iloc_from_def py_from_def idx drop_map upt)
  moreover have "columns (iloc_from (add_lags (close_frame ?cs) 30) (- 1)) = Close # map Lag [1..<31]"
    by (simp add: add_lags_frame iloc_from_def)
  ultimately have "frame_values (drop_columns (iloc_from (add_lags (close_frame ?cs) 30) (- 1)) [Close])
       = [lag_cells ?cs 30 (?n - 1)]"
    using drop_close_cells[of "lag_cells ?cs 30 (?n - 1)" "[1..<31]"]
    by (simp add: frame_values_def drop_columns_def length_lag_cells)
  then show ?thesis
    by (simp add: get_last_features_def Let_def)
qed

lemma get_last_features_empty:
  "historical_data fc = [] \<Longrightarrow> get_last_features fc = Inl IndexError"
  by (simp add: get_last_features_def Let_def add_lags_frame iloc_from_def py_from_def
      frame_values_def drop_columns_def)

lemma get_last_features_length:
  "get_last_features fc = Inr fs \<Longrightarrow> length fs = 30"
  by (cases "historical_data fc = []")
     (auto simp: get_last_features_empty get_last_features_value length_lag_cells)


lemma rev_upt_Suc: "rev [1..<Suc (Suc m)] = Suc m # rev [1..<Suc m]"
  by simp

lemma shift_fold:
  "m < length fs \<Longrightarrow>
   \<exists>xs. foldl shift_feature (Inr fs) (rev [1..<Suc m]) = Inr xs \<and> length xs = length fs
      \<and> (\<forall>i < length fs. xs ! i = (if 1 \<le> i \<and> i \<le> m then fs ! (i - 1) else fs ! i))"
proof (induction m arbitrary: fs)
  case 0
  then show ?case by simp
next
  case (Suc m)
  let ?fs' = "fs[Suc m := fs ! m]"
  from Suc.prems have first: "shift_feature (Inr fs) (Suc m) = Inr ?fs'"
    by (simp add: shift_feature_def get_item_def set_item_def)
  from Suc.prems have "m < length ?fs'" by simp
  from Suc.IH[OF this] obtain xs where
    xs: "foldl shift_feature (Inr ?fs') (rev [1..<Suc m]) = Inr xs" "length xs = length ?fs'"
      "\<forall>i < length ?fs'. xs ! i = (if 1 \<le> i \<and> i \<le> m then ?fs' ! (i - 1) else ?fs' ! i)"
    by blast
  have "foldl shift_feature (Inr fs) (rev [1..<Suc (Suc m)]) = Inr xs"
    unfolding rev_upt_Suc using first xs(1) by simp
  moreover have "length xs = length fs" using xs(2) by simp
  moreover have "\<forall>i < length fs. xs ! i = (if 1 \<le> i \<and> i \<le> Suc m then fs ! (i - 1) else fs ! i)"
  proof (intro allI impI)
    fix i assume i: "i < length fs"
    with xs(3) have e: "xs ! i = (if 1 \<le> i \<and> i \<le> m then ?fs' ! (i - 1) else ?fs' ! i)"
      by simp
    show "xs ! i = (if 1 \<le> i \<and> i \<le> Suc m then fs ! (i - 1) else fs ! i)"
      using e i Suc.prems by (auto simp: nth_list_update)
  qed
  ultimately show ?case by blast
qed

lemma update_features_shifts:
  assumes "length fs = 30"
  shows "\<exists>fs'. update_features fs p = Inr fs' \<and> length fs' = 30 \<and> fs' ! 0 = p
           \<and> (\<forall>i. 1 \<le> i \<and> i < 30 \<longrightarrow> fs' ! i = fs ! (i - 1))"
proof -
  from assms have "29 < length fs" by simp
  from shift_fold[OF this] obtain xs where
    xs: "foldl shift_feature (Inr fs) (rev [1..<Suc 29]) = Inr xs" "length xs = length fs"
      "\<forall>i < length fs. xs ! i = (if 1 \<le> i \<and> i \<le> 29 then fs ! (i - 1) else fs ! i)"
    by blast
  have "Suc 29 = 30" by simp
  with xs(1) have f: "foldl shift_feature (Inr fs) (rev [1..<30]) = Inr xs" by simp
  have "update_features fs p = Inr (xs[0 := p])"
    using f xs(2) assms by (simp add: update_features_def set_item_def)
  moreover have "length (xs[0 := p]) = 30" using xs(2) assms by simp
  moreover have "xs[0 := p] ! 0 = p" using xs(2) assms by simp
  moreover have "\<forall>i. 1 \<le> i \<and> i < 30 \<longrightarrow> xs[0 := p] ! i = fs ! (i - 1)"
    using xs(3) assms by auto
  ultimately show ?thesis by blast
qed

lemma forecast_loop_snoc:
  "forecast_loop m (Suc k) st =
     (case forecast_loop m k st of Inl e \<Rightarrow> Inl e | Inr st' \<Rightarrow> forecast_step m st')"
proof (induction k arbitrary: st)
  case 0
  show ?case by (cases "forecast_step m st") simp_all
next
  case (Suc k)
  show ?case
  proof (cases "forecast_step m st")
    case (Inl e)
    then show ?thesis by simp
  next
    case (Inr st1)
    have "forecast_loop m (Suc (Suc k)) st = forecast_loop m (Suc k) st1"
      using Inr by simp
    also have "\<dots> = (case forecast_loop m k st1 of Inl e \<Rightarrow> Inl e | Inr st' \<Rightarrow> forecast_step m st')"
      by (rule Suc.IH)
    also have "forecast_loop m k st1 = forecast_loop m (Suc k) st"
      using Inr by simp
    finally show ?thesis .
  qed
qed

lemma forecast_step_length:
  assumes "forecast_step m (fc, fs) = Inr (fc', fs')" "length fs = 30"
  shows "length fs' = 30 \<and> length fc' = Suc (length fc)"
proof -
  from assms(1) obtain p where p: "predict m fs = Inr p" "update_features fs p = Inr fs'" "fc' = fc @ [p]"
    by (auto simp: forecast_step_def split: sum.splits)
  with update_features_shifts[OF assms(2), of p] show ?thesis by auto
qed

lemma forecast_loop_length:
  "forecast_loop m k (fc, fs) = Inr (fc', fs') \<Longrightarrow> length fs = 30 \<Longrightarrow>
   length fs' = 30 \<and> length fc' = length fc + k"
proof (induction k arbitrary: fc fs)
  case 0
  then show ?case by simp
next
  case (Suc k)
  from Suc.prems(1) obtain fc1 fs1 where
    s1: "forecast_step m (fc, fs) = Inr (fc1, fs1)" "forecast_loop m k (fc1, fs1) = Inr (fc', fs')"
    by (auto split: sum.splits)
  from forecast_step_length[OF s1(1) Suc.prems(2)] have "length fs1 = 30" "length fc1 = Suc (length fc)"
    by simp_all
  with Suc.IH[OF s1(2)] show ?case by simp
qed

text \<open>
  C9: in the loop of \<open>_recursive_forecast_ml\<close>, started from the seed vector of
  \<open>_get_last_features\<close>: when the model predicts \<open>p\<close> from the feature vector reached
  after \<open>k\<close> steps, the loop reaches a next state whose path ends in \<open>p\<close> and whose feature
  vector has \<open>lag_1 = p\<close> and, for \<open>1 < i \<le> 30\<close>, \<open>lag_i\<close> equal to the \<open>lag_(i-1)\<close> of the
  vector before (\<open>lag_i\<close> is the entry at index \<open>i - 1\<close>).
\<close>

theorem C9_lags_shift:
  assumes seed: "get_last_features fc = Inr seed"
      and before: "forecast_loop m k ([], seed) = Inr (path, fs)"
      and pred: "predict m fs = Inr p"
  shows "\<exists>fs'. forecast_loop m (Suc k) ([], seed) = Inr (path @ [p], fs')
    \<and> length fs = 30 \<and> length fs' = 30 \<and> fs' ! 0 = p
    \<and> (\<forall>i. 1 < i \<and> i \<le> 30 \<longrightarrow> fs' ! (i - 1) = fs ! (i - 2))"
proof -
  from get_last_features_length[OF seed] have "length seed = 30" .
  from forecast_loop_length[OF before this] have len: "length fs = 30" by simp
  from update_features_shifts[OF len, of p] obtain fs' where
    u: "update_features fs p = Inr fs'" "length fs' = 30" "fs' ! 0 = p"
       "\<forall>i. 1 \<le> i \<and> i < 30 \<longrightarrow> fs' ! i = fs ! (i - 1)"
    by blast
  have sh: "\<forall>i. 1 < i \<and> i \<le> 30 \<longrightarrow> fs' ! (i - 1) = fs ! (i - 2)"
  proof (intro allI impI)
    fix i :: nat assume i: "1 < i \<and> i \<le> 30"
    then have "1 \<le> i - 1 \<and> i - 1 < 30" by auto
    with u(4) have "fs' ! (i - 1) = fs ! (i - 1 - 1)" by blast
    moreover have "i - 1 - 1 = i - 2" by simp
    ultimately show "fs' ! (i - 1) = fs ! (i - 2)" by simp
  qed
  have step: "forecast_step m (path, fs) = Inr (path @ [p], fs')"
    using pred u(1) by (simp add: forecast_step_def)
  have "forecast_loop m (Suc k) ([], seed) = Inr (path @ [p], fs')"
    using before step by (simp only: forecast_loop_snoc sum.case)
  with u sh len show ?thesis by blast
qed

lemma recursive_forecast_length:
  "length (recursive_forecast_ml fc ndays) = ndays"
proof (cases "recursive_forecast_body fc ndays")
  case (Inl e)
  then show ?thesis by (simp add: recursive_forecast_ml_def)
next
  case (Inr path)
  then obtain seed where seed: "get_last_features fc = Inr seed"
    by (auto simp: recursive_forecast_body_def split: sum.splits)
  show ?thesis
  proof (cases "fc_model fc")
    case None
    with Inr seed show ?thesis
      by (auto simp: recursive_forecast_body_def recursive_forecast_ml_def split: if_splits)
  next
    case (Some m)
    with Inr seed obtain fs where "forecast_loop m ndays ([], seed) = Inr (path, fs)"
      by (auto simp: recursive_forecast_body_def split: sum.splits)
    from forecast_loop_length[OF this get_last_features_length[OF seed]] Inr
    show ?thesis by (simp add: recursive_forecast_ml_def)
  qed
qed

section \<open>Forecaster: a failing prediction\<close>

lemma lower_ridge: "lower ''Ridge'' = ''ridge''"
  by code_simp

lemma lower_forest: "lower ''RandomForestRegressor'' = ''randomforestregressor''"
  by code_simp

lemma lower_linear: "lower ''LinearRegression'' = ''linearregression''"
  by code_simp

lemma sklearn_names:
  assumes "type_name m \<in> {''RandomForestRegressor'', ''Ridge'', ''LinearRegression''}"
  shows "\<not> contains ''arima'' (lower (type_name m)) \<and> \<not> contains ''holt'' (lower (type_name m))
   \<and> (contains ''forest'' (lower (type_name m)) \<or> contains ''ridge'' (lower (type_name m))
       \<or> contains ''regression'' (lower (type_name m)))"
proof -
  from assms consider "type_name m = ''RandomForestRegressor''" | "type_name m = ''Ridge''"
    | "type_name m = ''LinearRegression''" by blast
  then show ?thesis
  proof cases
    case 1
    have "\<not> contains ''arima'' ''randomforestregressor'' \<and> \<not> contains ''holt'' ''randomforestregressor''
      \<and> contains ''forest'' ''randomforestregressor''" by simp
    then show ?thesis unfolding 1 lower_forest by blast
  next
    case 2
    have "\<not> contains ''arima'' ''ridge'' \<and> \<not> contains ''holt'' ''ridge''
      \<and> contains ''ridge'' ''ridge''" by simp
    then show ?thesis unfolding 2 lower_ridge by blast
  next
    case 3
    have "\<not> contains ''arima'' ''linearregression'' \<and> \<not> contains ''holt'' ''linearregression''
      \<and> contains ''regression'' ''linearregression''" by simp
    then show ?thesis unfolding 3 lower_linear by blast
  qed
qed

lemma forecast_loop_add:
  "forecast_loop m (k + j) st =
     (case forecast_loop m k st of Inl e \<Rightarrow> Inl e | Inr st' \<Rightarrow> forecast_loop m j st')"
proof (induction k arbitrary: st)
  case 0
  show ?case by simp
next
  case (Suc k)
  show ?case
  proof (cases "forecast_step m st")
    case (Inl e)
    then show ?thesis by simp
  next
    case (Inr st1)
    then show ?thesis using Suc.IH[of st1] by simp
  qed
qed

lemma failed_step_fails_loop:
  assumes "forecast_loop m k st = Inr (path, fs)" "predict m fs = Inl e" "k < ndays"
  shows "forecast_loop m ndays st = Inl e"
proof -
  define j where "j = ndays - Suc k"
  have j: "ndays = k + Suc j"
    using assms(3) by (simp add: j_def)
  have "forecast_step m (path, fs) = Inl e"
    using assms(2) by (simp add: forecast_step_def)
  then have last_steps: "forecast_loop m (Suc j) (path, fs) = Inl e" by simp
  have "forecast_loop m (k + Suc j) st =
          (case forecast_loop m k st of Inl e \<Rightarrow> Inl e | Inr st' \<Rightarrow> forecast_loop m (Suc j) st')"
    by (rule forecast_loop_add)
  also have "\<dots> = forecast_loop m (Suc j) (path, fs)"
    by (simp only: assms(1) sum.case)
  also note last_steps
  finally show ?thesis by (simp only: j)
qed

lemma failed_step_fails_body:
  assumes "fc_model fc = Some m"
      and "get_last_features fc = Inr seed"
      and "forecast_loop m k ([], seed) = Inr (path, fs)"
      and "predict m fs = Inl e"
      and "k < ndays"
  shows "recursive_forecast_body fc ndays = Inl e"
  using failed_step_fails_loop[OF assms(3,4,5)] assms(1,2)
  by (simp add: recursive_forecast_body_def)

text \<open>
  C4, amended: when a prediction step of the recursive forecast fails, after any number
  \<open>k < ndays\<close> of successful steps, the failure is caught and the whole returned path is
  the current price repeated \<open>ndays\<close> times; it has exactly \<open>ndays\<close> entries, and for a
  scikit-learn regressor \<open>forecast\<close> returns this path with the current price.
\<close>

theorem C4_failure_gives_flat_path:
  assumes "fc_model fc = Some m"
      and "get_last_features fc = Inr seed"
      and "forecast_loop m k ([], seed) = Inr (path, fs)"
      and "predict m fs = Inl e"
      and "k < ndays"
  shows "recursive_forecast_ml fc ndays = replicate ndays (current_price fc)
    \<and> length (recursive_forecast_ml fc ndays) = ndays
    \<and> (type_name m \<in> {''RandomForestRegressor'', ''Ridge'', ''LinearRegression''} \<longrightarrow>
         forecast fc ndays = (replicate ndays (current_price fc), current_price fc))"
proof -
  from failed_step_fails_body[OF assms]
  have flat: "recursive_forecast_ml fc ndays = replicate ndays (current_price fc)"
    by (simp add: recursive_forecast_ml_def)
  have "forecast fc ndays = (recursive_forecast_ml fc ndays, current_price fc)"
    if "type_name m \<in> {''RandomForestRegressor'', ''Ridge'', ''LinearRegression''}"
    using sklearn_names[OF that] assms(1) by (simp add: forecast_def Let_def)
  with flat show ?thesis by simp
qed

lemma flat_seed: "get_last_features failing_forecaster = Inr (lag_cells flat_history 30 30)"
proof -
  have "historical_data failing_forecaster \<noteq> []"
    by (simp add: failing_forecaster_def flat_history_def)
  from get_last_features_value[OF this]
  have "get_last_features failing_forecaster =
          Inr (lag_cells (historical_data failing_forecaster) 30
                 (length (historical_data failing_forecaster) - 1))" .
  moreover have "historical_data failing_forecaster = flat_history"
    by (simp add: failing_forecaster_def)
  moreover have "length flat_history - 1 = 30"
    by (simp add: flat_history_def)
  ultimately show ?thesis by (simp only:)
qed

lemma flat_seed_hd: "lag_cells flat_history 30 30 ! 0 = Fin 100"
proof -
  have "lag_cells flat_history 30 30 ! 0 = shift (int 1) flat_history ! 30"
    by (simp add: lag_cells_def nth_map_upt del: upt_Suc)
  also have "\<dots> = Fin 100"
    by (subst nth_shift_nonneg) (simp_all add: flat_history_def)
  finally show ?thesis .
qed

lemma flat_first_step:
  "\<exists>fs1. forecast_loop fails_second 1 ([], lag_cells flat_history 30 30) = Inr ([Fin 50], fs1)
       \<and> predict fails_second fs1 = Inl ValueError"
proof -
  have len: "length (lag_cells flat_history 30 30) = 30" by (simp add: length_lag_cells)
  have p: "predict fails_second (lag_cells flat_history 30 30) = Inr (Fin 50)"
    by (simp add: fails_second_def flat_seed_hd)
  from update_features_shifts[OF len, of "Fin 50"] obtain fs1 where
    fs1: "update_features (lag_cells flat_history 30 30) (Fin 50) = Inr fs1" "fs1 ! 0 = Fin 50"
    by blast
  have "forecast_loop fails_second 1 ([], lag_cells flat_history 30 30) = Inr ([Fin 50], fs1)"
    using p fs1(1) by (simp add: forecast_step_def)
  moreover have "predict fails_second fs1 = Inl ValueError"
    using fs1(2) by (simp add: fails_second_def)
  ultimately show ?thesis by blast
qed

theorem C4_failure_gives_flat_path_witness:
  "fc_model failing_forecaster = Some fails_second
   \<and> get_last_features failing_forecaster = Inr (lag_cells flat_history 30 30)
   \<and> (\<exists>fs1. forecast_loop fails_second 1 ([], lag_cells flat_history 30 30) = Inr ([Fin 50], fs1)
         \<and> predict fails_second fs1 = Inl ValueError
         \<and> recursive_forecast_ml failing_forecaster 5 = replicate 5 (current_price failing_forecaster)
         \<and> length (recursive_forecast_ml failing_forecaster 5) = 5
         \<and> forecast failing_forecaster 5 = (replicate 5 (Fin 100), Fin 100))"
proof -
  from flat_first_step obtain fs1 where
    fs1: "forecast_loop fails_second 1 ([], lag_cells flat_history 30 30) = Inr ([Fin 50], fs1)"
      "predict fails_second fs1 = Inl ValueError"
    by blast
  have m: "fc_model failing_forecaster = Some fails_second"
    by (simp add: failing_forecaster_def)
  have name: "type_name fails_second \<in> {''RandomForestRegressor'', ''Ridge'', ''LinearRegression''}"
    by (simp add: fails_second_def)
  have cp: "current_price failing_forecaster = Fin 100"
    by (simp add: failing_forecaster_def)
  have "(1::nat) < 5" by simp
  from C4_failure_gives_flat_path[OF m flat_seed fs1 this] name
  have "recursive_forecast_ml failing_forecaster 5 = replicate 5 (current_price failing_forecaster)
      \<and> length (recursive_forecast_ml failing_forecaster 5) = 5
      \<and> forecast failing_forecaster 5 = (replicate 5 (current_price failing_forecaster), current_price failing_forecaster)"
    by blast
  with m flat_seed fs1 cp show ?thesis by auto
qed

theorem C9_lags_shift_witness:
  "get_last_features failing_forecaster = Inr (lag_cells flat_history 30 30)
   \<and> forecast_loop fails_second 0 ([], lag_cells flat_history 30 30)
       = Inr ([], lag_cells flat_history 30 30)
   \<and> predict fails_second (lag_cells flat_history 30 30) = Inr (Fin 50)
   \<and> (\<exists>fs'. forecast_loop fails_second (Suc 0) ([], lag_cells flat_history 30 30)
               = Inr ([Fin 50], fs')
         \<and> fs' ! 0 = Fin 50 \<and> fs' ! 1 = Fin 100)"
proof -
  have b: "forecast_loop fails_second 0 ([], lag_cells flat_history 30 30)
       = Inr ([], lag_cells flat_history 30 30)"
    by simp
  have p: "predict fails_second (lag_cells flat_history 30 30) = Inr (Fin 50)"
    by (simp add: fails_second_def flat_seed_hd)
  from C9_lags_shift[OF flat_seed b p] obtain fs' where
    f: "forecast_loop fails_second (Suc 0) ([], lag_cells flat_history 30 30) = Inr ([] @ [Fin 50], fs')"
       "fs' ! 0 = Fin 50"
       "\<forall>i. 1 < i \<and> i \<le> 30 \<longrightarrow> fs' ! (i - 1) = lag_cells flat_history 30 30 ! (i - 2)"
    by blast
  from f(3) have "fs' ! (2 - 1) = lag_cells flat_history 30 30 ! (2 - 2)"
    by (rule allE[where x = 2]) simp
  then have "fs' ! 1 = Fin 100" by (simp add: flat_seed_hd)
  with f(1,2) flat_seed b p show ?thesis by auto
qed

section \<open>Model trainer: the selection loop\<close>

lemma lstm_never_unpacks: "unpack3 (train_simple_lstm t) = Inl ValueError"
  by (simp add: train_simple_lstm_def split: sum.splits prod.splits)

lemma select_step_lstm: "select_step t st (''LSTM'', train_simple_lstm) = st"
  by (simp add: select_step_def lstm_never_unpacks)

lemma select_step_named:
  assumes "named_candidate st"
      and "n = ''Random Forest'' \<or> n = ''Ridge Regression'' \<or> n = ''ARIMA''"
  shows "named_candidate (select_step t st (n, f))"
  using assms
proof (cases "unpack3 (f t)")
  case (Inl e)
  with assms(1) show ?thesis by (simp add: select_step_def)
next
  case (Inr r)
  obtain mo rmse mape where r: "r = (mo, rmse, mape)" by (cases r) auto
  show ?thesis
  proof (cases "mo \<noteq> None \<and> fl_less rmse (best_rmse st)")
    case True
    with Inr r assms(2) show ?thesis
      by (auto simp: select_step_def named_candidate_def Let_def)
  next
    case False
    with Inr r assms(1) show ?thesis
      by (auto simp: select_step_def named_candidate_def Let_def)
  qed
qed

lemma selection_loop:
  "foldl (select_step t) initial_selection models_to_train =
     select_step t (select_step t (select_step t initial_selection
       (''Random Forest'', train_random_forest)) (''Ridge Regression'', train_ridge_regression))
       (''ARIMA'', train_arima)"
  by (simp add: models_to_train_def select_step_lstm)

lemma selection_named: "named_candidate (foldl (select_step t) initial_selection models_to_train)"
proof -
  have "named_candidate initial_selection"
    by (simp add: named_candidate_def initial_selection_def)
  then show ?thesis
    unfolding selection_loop by (intro select_step_named) simp_all
qed

text \<open>
  C10: whatever the fits do, \<open>train_simple_lstm\<close> returns four values, the unpacking of
  three raises, the pass of the loop leaves the selection as it was, and the name that
  \<open>train_and_select_best\<close> returns is one of Random Forest, Ridge Regression, ARIMA and
  Persistence, never LSTM.
\<close>

theorem C10_lstm_never_selected:
  "snd (snd (train_and_select_best t))
      \<in> {''Random Forest'', ''Ridge Regression'', ''ARIMA'', ''Persistence''}
   \<and> snd (snd (train_and_select_best t)) \<noteq> ''LSTM''
   \<and> unpack3 (train_simple_lstm t) = Inl ValueError
   \<and> select_step t st (''LSTM'', train_simple_lstm) = st"
proof -
  let ?st = "foldl (select_step t) initial_selection models_to_train"
  have n: "snd (snd (train_and_select_best t))
      \<in> {''Random Forest'', ''Ridge Regression'', ''ARIMA'', ''Persistence''}"
    using selection_named[of t]
    by (auto simp: train_and_select_best_def Let_def named_candidate_def)
  then have "snd (snd (train_and_select_best t)) \<noteq> ''LSTM''"
    by auto
  with n show ?thesis by (simp add: lstm_never_unpacks select_step_lstm)
qed

lemma linear_best_lstm:
  "train_simple_lstm linear_best =
     Tuple4 (Some (const_model ''LinearRegression'')) (Fin 1) (Fin 0.01)
       ''Linear Regression (LSTM placeholder)''"
  by (simp add: train_simple_lstm_def linear_best_def)

lemma linear_best_selection:
  "train_and_select_best linear_best = (Some (const_model ''Ridge''), Fin 4, ''Ridge Regression'')"
  unfolding train_and_select_best_def selection_loop
  by (simp add: select_step_def train_random_forest_def train_ridge_regression_def train_arima_def
      linear_best_def initial_selection_def Let_def)

text \<open>
  C3: with fits that all succeed and RMSE 5, 4, 6 for the forest, the ridge and the ARIMA
  candidate and 1 for the linear placeholder, the placeholder trains (its method returns
  the fitted model with RMSE 1) and \<open>train_and_select_best\<close> returns the ridge model
  with RMSE 4.
\<close>

theorem C3_lowest_rmse_not_returned:
  "train_simple_lstm linear_best =
     Tuple4 (Some (const_model ''LinearRegression'')) (Fin 1) (Fin 0.01)
       ''Linear Regression (LSTM placeholder)''
   \<and> fl_less (Fin 1) (Fin 4)
   \<and> train_and_select_best linear_best = (Some (const_model ''Ridge''), Fin 4, ''Ridge Regression'')"
  by (simp add: linear_best_lstm linear_best_selection)

section \<open>Model trainer: the supervised table and its split\<close>

lemma column_values_close:
  "column_values \<lparr>columns = Close # cols, rows = map (\<lambda>t. (t, cs ! t # f t)) [0..<length cs]\<rparr> Close = cs"
  by (simp add: column_values_def col_pos_def comp_def map_nth)

lemma ml_table_frame:
  "ml_table cs =
     \<lparr>columns = Close # map Lag [1..<31] @ [Target],
      rows = map (\<lambda>t. (t, ml_row cs t)) (complete_steps cs)\<rparr>"
proof -
  have "new_column (add_lags (close_frame cs) 30) Target
          (shift (- 1) (column_values (add_lags (close_frame cs) 30) Close)) =
        \<lparr>columns = Close # map Lag [1..<31] @ [Target],
         rows = map (\<lambda>t. (t, ml_row cs t)) [0..<length cs]\<rparr>"
    unfolding add_lags_frame column_values_close new_column_def
    by (simp add: zip_map_upt length_shift ml_row_def)
  then show ?thesis
    by (simp add: ml_table_def Let_def dropna_def filter_map comp_def complete_steps_def)
qed

lemma drop_target_close_cells:
  assumes "length vs = length ns"
  shows "map snd (filter (\<lambda>(c, v). c \<notin> set [Target, Close])
           (zip (Close # map Lag ns @ [Target]) (x # vs @ [y]))) = vs"
proof -
  have z: "zip (map Lag ns @ [Target]) (vs @ [y]) = zip (map Lag ns) vs @ [(Target, y)]"
    using assms by simp
  have "filter (\<lambda>(c, v). c \<notin> set [Target, Close]) (zip (map Lag ns) vs) = zip (map Lag ns) vs"
    by (rule filter_True) (auto dest: set_zip_leftD)
  with assms show ?thesis by (simp add: z)
qed

lemma features_frame:
  "drop_columns (ml_table cs) [Target, Close] =
     \<lparr>columns = map Lag [1..<31],
      rows = map (\<lambda>t. (t, lag_cells cs 30 t)) (complete_steps cs)\<rparr>"
proof -
  have "map snd (filter (\<lambda>(c, v). c \<notin> set [Target, Close])
           (zip (Close # map Lag [1..<31] @ [Target]) (ml_row cs t))) = lag_cells cs 30 t" for t
    unfolding ml_row_def by (rule drop_target_close_cells) (simp add: length_lag_cells)
  then show ?thesis
    unfolding ml_table_frame drop_columns_def by (simp add: comp_def)
qed



lemma complete_steps_sorted: "sorted_wrt (<) (complete_steps cs)"
  unfolding complete_steps_def by (rule sorted_wrt_filter) simp

lemma py_split_append: "py_upto xs k @ py_from xs k = xs"
  by (simp add: py_upto_def py_from_def)


lemma split_idx_unit:
  assumes "0 \<le> ts" "ts \<le> 1"
  shows "slice_index n (split_idx n ts) = nat \<lfloor>real n * (1 - ts)\<rfloor>"
proof -
  have nn: "0 \<le> real n * (1 - ts)" using assms by simp
  have le: "real n * (1 - ts) \<le> real n" using assms by (simp add: mult_left_le)
  have f0: "0 \<le> \<lfloor>real n * (1 - ts)\<rfloor>" using nn by simp
  have "\<lfloor>real n * (1 - ts)\<rfloor> \<le> \<lfloor>real n\<rfloor>" using le by (rule floor_mono)
  then have f1: "\<lfloor>real n * (1 - ts)\<rfloor> \<le> int n" by simp
  show ?thesis
    using nn f0 f1 by (auto simp: slice_index_def split_idx_def py_int_def)
qed

lemma lag_cells_shift:
  assumes "1 \<le> i" "i \<le> n"
  shows "lag_cells cs n t ! (i - 1) = shift (int i) cs ! t"
proof -
  from assms have lt: "i - 1 < length [1..<n + 1]" by simp
  from assms have "1 + (i - 1) < n + 1" by simp
  then have "[1..<n + 1] ! (i - 1) = 1 + (i - 1)" by (rule nth_upt)
  with assms(1) have "[1..<n + 1] ! (i - 1) = i" by simp
  with lt show ?thesis unfolding lag_cells_def by (simp only: nth_map)
qed

lemma lag_cells_nth:
  assumes "1 \<le> i" "i \<le> n" "i \<le> t" "t < length cs"
  shows "lag_cells cs n t ! (i - 1) = cs ! (t - i)"
proof -
  have "lag_cells cs n t ! (i - 1) = shift (int i) cs ! t"
    using assms(1,2) by (rule lag_cells_shift)
  also have "\<dots> = cs ! (t - i)"
    using assms(3,4) by (simp add: nth_shift_nonneg)
  finally show ?thesis .
qed

lemma complete_step_bounds:
  assumes "t \<in> set (complete_steps cs)"
  shows "30 \<le> t \<and> t + 1 < length cs"
proof -
  from assms have t: "t < length cs" and c: "\<forall>v \<in> set (ml_row cs t). \<not> is_nan v"
    by (simp_all add: complete_steps_def list_ex_iff)
  have "lag_cells cs 30 t ! (30 - 1) \<in> set (lag_cells cs 30 t)"
    by (rule nth_mem) (simp add: length_lag_cells)
  then have "lag_cells cs 30 t ! (30 - 1) \<in> set (ml_row cs t)"
    by (simp add: ml_row_def)
  with c have nn: "\<not> is_nan (lag_cells cs 30 t ! (30 - 1))" by blast
  have e: "lag_cells cs 30 t ! (30 - 1) = shift (int 30) cs ! t"
    by (rule lag_cells_shift) simp_all
  have e': "shift (int 30) cs ! t = (if t < 30 then NaN else cs ! (t - 30))"
    using t by (rule nth_shift_nonneg)
  from nn have "\<not> is_nan (if t < 30 then NaN else cs ! (t - 30))"
    unfolding e e' .
  then have a: "30 \<le> t"
    by (auto split: if_splits)
  have "shift (- 1) cs ! t \<in> set (ml_row cs t)"
    by (simp add: ml_row_def)
  with c have "\<not> is_nan (shift (- 1) cs ! t)" by blast
  with t have "t + 1 < length cs"
    by (auto simp: nth_shift_minus1 split: if_splits)
  with a show ?thesis by simp
qed

lemma complete_steps_no_nan:
  assumes "\<forall>c \<in> set cs. \<not> is_nan c"
  shows "complete_steps cs = [30..<length cs - 1]"
proof (rule sorted_distinct_set_unique)
  show "sorted (complete_steps cs)" "distinct (complete_steps cs)"
    using complete_steps_sorted[of cs] by (simp_all add: strict_sorted_iff)
  show "sorted [30..<length cs - 1]" "distinct [30..<length cs - 1]" by simp_all
  show "set (complete_steps cs) = set [30..<length cs - 1]"
  proof (intro set_eqI iffI)
    fix t assume "t \<in> set (complete_steps cs)"
    from complete_step_bounds[OF this] show "t \<in> set [30..<length cs - 1]" by auto
  next
    fix t assume "t \<in> set [30..<length cs - 1]"
    then have t: "30 \<le> t" "t + 1 < length cs" by auto
    have cell: "\<not> is_nan (cs ! j)" if "j < length cs" for j
      using assms that by simp
    have "\<not> is_nan v" if "v \<in> set (lag_cells cs 30 t)" for v
    proof -
      from that obtain i where i: "i \<in> set [1..<30 + 1]" "v = shift (int i) cs ! t"
        unfolding lag_cells_def by auto
      then have "v = cs ! (t - i)" using t by (simp add: nth_shift_nonneg)
      with cell[of "t - i"] t show ?thesis by simp
    qed
    moreover have "\<not> is_nan (cs ! t)" using cell t by simp
    moreover have "\<not> is_nan (shift (- 1) cs ! t)"
      using cell[of "t + 1"] t by (simp add: nth_shift_minus1)
    ultimately have "\<not> list_ex is_nan (ml_row cs t)"
      by (auto simp: ml_row_def list_ex_iff)
    with t show "t \<in> set (complete_steps cs)"
      by (simp add: complete_steps_def)
  qed
qed

lemma prepare_features_columns:
  "columns (prepare_features cs 30) =
     Close # map Lag [1..<31] @ [Rolling_mean_7, Rolling_std_7, Price_change]"
  by (simp add: prepare_features_def Let_def dropna_def new_column_def add_lags_frame)

lemma rising_no_nan: "\<forall>c \<in> set rising_history. \<not> is_nan c"
  by (auto simp: rising_history_def)

lemma rising_steps: "complete_steps rising_history = [30..<39]"
  using complete_steps_no_nan[OF rising_no_nan] by (simp add: rising_history_def)

lemma rising_split: "slice_index 9 (split_idx 9 0.2) = 7"
proof -
  have "slice_index 9 (split_idx 9 0.2) = nat \<lfloor>real 9 * (1 - 0.2)\<rfloor>"
    by (rule split_idx_unit) simp_all
  also have "real 9 * (1 - 0.2) = 36 / 5" by simp
  also have "nat \<lfloor>36 / 5 :: real\<rfloor> = 7" by simp
  finally show ?thesis .
qed


lemma rising_features:
  "drop_columns (ml_table rising_history) [Target, Close] =
     \<lparr>columns = map Lag [1..<31],
      rows = map (\<lambda>t. (t, lag_cells rising_history 30 t)) [30..<39]\<rparr>"
  by (simp only: features_frame rising_steps)

lemma upt_30_39: "[30..<39] = [30, 31, 32, 33, 34, 35, 36, 37, 38::nat]"
  by (simp add: upt_rec)

lemma rising_split_point:
  "slice_index (length (rows (drop_columns (ml_table rising_history) [Target, Close])))
     (split_idx (length (rows (drop_columns (ml_table rising_history) [Target, Close]))) (1 / 5)) = 7"
proof -
  have len: "length (rows (drop_columns (ml_table rising_history) [Target, Close])) = 9"
    by (simp add: rising_features)
  have "slice_index 9 (split_idx 9 (1 / 5)) = nat \<lfloor>real 9 * (1 - 1 / 5)\<rfloor>"
    by (rule split_idx_unit) simp_all
  also have "real 9 * (1 - 1 / 5) = 36 / 5" by simp
  also have "nat \<lfloor>36 / 5 :: real\<rfloor> = 7" by simp
  finally show ?thesis unfolding len .
qed




text \<open>
  C2, amended: for every series, the feature columns of the trainer are exactly
  \<open>lag_1, ..., lag_30\<close>, every feature row of time step \<open>t\<close> is the 30 lags
  \<open>price[t - i]\<close>, and the seed vector of the forecaster is the same 30 lags of the last
  time step; the rolling mean, the rolling standard deviation and the price change are
  columns of \<open>prepare_features\<close> only.
\<close>

theorem C2_thirty_lags:
  "(case prepare_ml_data cs ts of (X_train, X_test, y_train, y_test) \<Rightarrow>
      columns X_train = map Lag [1..<31] \<and> columns X_test = map Lag [1..<31]
    \<and> (\<forall>(t, v) \<in> set (rows X_train @ rows X_test).
          30 \<le> t \<and> t < length cs \<and> v = lag_cells cs 30 t \<and> length v = 30
          \<and> (\<forall>i. 1 \<le> i \<and> i \<le> 30 \<longrightarrow> v ! (i - 1) = cs ! (t - i))))
   \<and> (cs \<noteq> [] \<longrightarrow>
        get_last_features \<lparr>fc_model = mo, historical_data = cs, current_price = last cs\<rparr>
          = Inr (lag_cells cs 30 (length cs - 1))
      \<and> length (lag_cells cs 30 (length cs - 1)) = 30
      \<and> (\<forall>i. 1 \<le> i \<and> i \<le> 30 \<and> i < length cs \<longrightarrow>
            lag_cells cs 30 (length cs - 1) ! (i - 1) = cs ! (length cs - 1 - i)))
   \<and> columns (prepare_features cs 30) =
       Close # map Lag [1..<31] @ [Rolling_mean_7, Rolling_std_7, Price_change]"
proof -
  let ?X = "drop_columns (ml_table cs) [Target, Close]"
  let ?y = "column_series (ml_table cs) Target"
  let ?k = "split_idx (length (rows ?X)) ts"
  have p: "prepare_ml_data cs ts = (iloc_upto ?X ?k, iloc_from ?X ?k, py_upto ?y ?k, py_from ?y ?k)"
    by (simp add: prepare_ml_data_def Let_def)
  have c1: "columns (iloc_upto ?X ?k) = map Lag [1..<31]"
    and c2: "columns (iloc_from ?X ?k) = map Lag [1..<31]"
    by (simp_all add: iloc_upto_def iloc_from_def features_frame)
  have rows_all: "rows (iloc_upto ?X ?k) @ rows (iloc_from ?X ?k) =
      map (\<lambda>t. (t, lag_cells cs 30 t)) (complete_steps cs)"
    by (simp add: iloc_upto_def iloc_from_def py_split_append features_frame)
  have r: "\<forall>(t, v) \<in> set (rows (iloc_upto ?X ?k) @ rows (iloc_from ?X ?k)).
          30 \<le> t \<and> t < length cs \<and> v = lag_cells cs 30 t \<and> length v = 30
          \<and> (\<forall>i. 1 \<le> i \<and> i \<le> 30 \<longrightarrow> v ! (i - 1) = cs ! (t - i))"
  proof (clarify, intro conjI allI impI)
    fix t v assume "(t, v) \<in> set (rows (iloc_upto ?X ?k) @ rows (iloc_from ?X ?k))"
    then have tv: "t \<in> set (complete_steps cs)" "v = lag_cells cs 30 t"
      unfolding rows_all by auto
    from complete_step_bounds[OF tv(1)] have b: "30 \<le> t" "t < length cs" by auto
    show "30 \<le> t" "t < length cs" "v = lag_cells cs 30 t" "length v = 30"
      using b tv by (simp_all add: length_lag_cells)
    fix i :: nat assume i: "1 \<le> i \<and> i \<le> 30"
    with b have "lag_cells cs 30 t ! (i - 1) = cs ! (t - i)"
      by (intro lag_cells_nth) auto
    with tv show "v ! (i - 1) = cs ! (t - i)" by simp
  qed
  have s: "get_last_features \<lparr>fc_model = mo, historical_data = cs, current_price = last cs\<rparr>
          = Inr (lag_cells cs 30 (length cs - 1))
      \<and> length (lag_cells cs 30 (length cs - 1)) = 30
      \<and> (\<forall>i. 1 \<le> i \<and> i \<le> 30 \<and> i < length cs \<longrightarrow>
            lag_cells cs 30 (length cs - 1) ! (i - 1) = cs ! (length cs - 1 - i))"
    if ne: "cs \<noteq> []"
  proof (intro conjI allI impI)
    show "get_last_features \<lparr>fc_model = mo, historical_data = cs, current_price = last cs\<rparr>
          = Inr (lag_cells cs 30 (length cs - 1))"
      using get_last_features_value[of "\<lparr>fc_model = mo, historical_data = cs, current_price = last cs\<rparr>"] ne
      by simp
    show "length (lag_cells cs 30 (length cs - 1)) = 30" by (rule length_lag_cells)
    fix i :: nat assume "1 \<le> i \<and> i \<le> 30 \<and> i < length cs"
    then show "lag_cells cs 30 (length cs - 1) ! (i - 1) = cs ! (length cs - 1 - i)"
      using ne by (intro lag_cells_nth) auto
  qed
  show ?thesis
    unfolding p prod.case using c1 c2 r s prepare_features_columns by blast
qed

lemma rising_last: "last rising_history = Fin 40"
proof -
  have l: "last [1..<41] = (41::nat) - 1" by (rule last_upt) simp
  have ne: "[1..<41] \<noteq> ([]::nat list)" by simp
  have "last rising_history = Fin (real (last [1..<41]))"
    unfolding rising_history_def using ne by (rule last_map)
  then show ?thesis unfolding l by simp
qed

theorem C2_thirty_lags_witness:
  "columns (fst (prepare_ml_data rising_history (1 / 5))) = map Lag [1..<31]
   \<and> rising_history \<noteq> []
   \<and> get_last_features rising_forecaster = Inr (lag_cells rising_history 30 39)
   \<and> lag_cells rising_history 30 39 ! 0 = Fin 39
   \<and> lag_cells rising_history 30 39 ! 29 = Fin 10"
proof -
  have ne: "rising_history \<noteq> []" by (simp add: rising_history_def)
  have l: "length rising_history - 1 = 39" "length rising_history = 40"
    by (simp_all add: rising_history_def)
  have fc: "rising_forecaster =
      \<lparr>fc_model = None, historical_data = rising_history, current_price = last rising_history\<rparr>"
    by (simp add: rising_forecaster_def rising_last)
  from C2_thirty_lags[of rising_history "1 / 5" None] ne
  have cols: "columns (fst (prepare_ml_data rising_history (1 / 5))) = map Lag [1..<31]"
    and seed: "get_last_features rising_forecaster = Inr (lag_cells rising_history 30 39)"
    and lags: "\<forall>i. 1 \<le> i \<and> i \<le> 30 \<and> i < length rising_history \<longrightarrow>
            lag_cells rising_history 30 (length rising_history - 1) ! (i - 1)
              = rising_history ! (length rising_history - 1 - i)"
    unfolding fc[symmetric] l(1) by (auto split: prod.splits)
  from lags have "lag_cells rising_history 30 (length rising_history - 1) ! (1 - 1)
       = rising_history ! (length rising_history - 1 - 1)"
    by (rule allE[where x = 1]) (simp add: l)
  then have a: "lag_cells rising_history 30 39 ! 0 = Fin 39"
    unfolding l by (simp add: rising_history_def nth_map_upt del: upt_Suc)
  from lags have "lag_cells rising_history 30 (length rising_history - 1) ! (30 - 1)
       = rising_history ! (length rising_history - 1 - 30)"
    by (rule allE[where x = 30]) (simp add: l)
  then have b: "lag_cells rising_history 30 39 ! 29 = Fin 10"
    unfolding l by (simp add: rising_history_def nth_map_upt del: upt_Suc)
  from cols ne seed a b show ?thesis by blast
qed

lemma rising_seed:
  "get_last_features rising_forecaster = Inr (lag_cells rising_history 30 39)"
proof -
  have ne: "historical_data rising_forecaster \<noteq> []"
    by (simp add: rising_forecaster_def rising_history_def)
  have h: "historical_data rising_forecaster = rising_history"
    by (simp add: rising_forecaster_def)
  have l: "length rising_history - 1 = 39"
    by (simp add: rising_history_def)
  from get_last_features_value[OF ne] show ?thesis unfolding h l .
qed

lemma rising_first_train_row:
  "hd (rows (fst (prepare_ml_data rising_history (1 / 5)))) = (30, lag_cells rising_history 30 30)"
proof -
  have "rows (fst (prepare_ml_data rising_history (1 / 5))) =
          take 7 (rows (drop_columns (ml_table rising_history) [Target, Close]))"
    unfolding prepare_ml_data_def Let_def fst_conv iloc_upto_def py_upto_def rising_split_point
    by simp
  then show ?thesis by (simp add: rising_features upt_30_39)
qed

lemma rising_train_columns:
  "columns (fst (prepare_ml_data rising_history (1 / 5))) = map Lag [1..<31]"
  by (simp add: prepare_ml_data_def Let_def iloc_upto_def features_frame)

text \<open>
  C2, as stated, fails: on the series 1, ..., 40 the first feature row the trainer trains
  on and the seed vector of the forecaster have 30 entries each, under the columns
  \<open>lag_1, ..., lag_30\<close>; the rolling mean is a column of \<open>prepare_features\<close> (34 columns
  with the price), which neither of them calls.
\<close>

theorem C2_no_rolling_features:
  "columns (fst (prepare_ml_data rising_history (1 / 5))) = map Lag [1..<31]
   \<and> Rolling_mean_7 \<notin> set (columns (fst (prepare_ml_data rising_history (1 / 5))))
   \<and> hd (rows (fst (prepare_ml_data rising_history (1 / 5)))) = (30, lag_cells rising_history 30 30)
   \<and> length (lag_cells rising_history 30 30) = 30
   \<and> get_last_features rising_forecaster = Inr (lag_cells rising_history 30 39)
   \<and> length (lag_cells rising_history 30 39) = 30
   \<and> Rolling_mean_7 \<in> set (columns (prepare_features rising_history 30))
   \<and> length (columns (prepare_features rising_history 30)) = 34"
proof -
  have "Rolling_mean_7 \<notin> set (columns (fst (prepare_ml_data rising_history (1 / 5))))"
    unfolding rising_train_columns by auto
  moreover have "Rolling_mean_7 \<in> set (columns (prepare_features rising_history 30))"
    "length (columns (prepare_features rising_history 30)) = 34"
    unfolding prepare_features_columns by simp_all
  ultimately show ?thesis
    using rising_train_columns rising_first_train_row rising_seed length_lag_cells by blast
qed

theorem C10_lstm_never_selected_witness:
  "snd (snd (train_and_select_best linear_best)) = ''Ridge Regression''
   \<and> snd (snd (train_and_select_best linear_best)) \<noteq> ''LSTM''
   \<and> unpack3 (train_simple_lstm linear_best) = Inl ValueError"
  using C10_lstm_never_selected[of linear_best initial_selection] linear_best_selection
  by simp

section \<open>Model trainer: what the selection returns\<close>

lemma fl_less_trans: "fl_less a b \<Longrightarrow> fl_less b c \<Longrightarrow> fl_less a c"
  by (cases a; cases b; cases c) auto

lemma fl_le_less_trans: "fl_le a b \<Longrightarrow> fl_less b c \<Longrightarrow> fl_less a c"
  by (cases a; cases b; cases c) auto

lemma fl_less_irrefl: "\<not> fl_less a a"
  by (cases a) auto

lemma select_step_best:
  "best_of (select_step t st cand) = foldl keep_best (best_of st) (unpacked_of t cand)"
proof (cases cand)
  case (Pair n f)
  show ?thesis
  proof (cases "unpack3 (f t)")
    case (Inl e)
    with Pair show ?thesis by (simp add: select_step_def unpacked_of_def)
  next
    case (Inr r)
    obtain m rmse mape where r: "r = (m, rmse, mape)" by (cases r) auto
    with Pair Inr show ?thesis
      by (simp add: select_step_def unpacked_of_def keep_best_def best_of_def Let_def)
  qed
qed

lemma selection_best:
  "best_of (foldl (select_step t) st cands) =
     foldl keep_best (best_of st) (concat (map (unpacked_of t) cands))"
  by (induction cands arbitrary: st) (simp_all add: select_step_best)

lemma keep_best_first_lowest:
  assumes "first_lowest cs b"
  shows "first_lowest (cs @ [c]) (keep_best b c)"
proof -
  obtain bm br bn where b: "b = (bm, br, bn)" by (cases b) auto
  obtain n m r where c: "c = (n, m, r)" by (cases c) auto
  show ?thesis
  proof (cases "m \<noteq> None \<and> fl_less r br")
    case True
    then have kb: "keep_best b c = (m, r, n)" by (simp add: keep_best_def b c)
    have old: "\<not> fl_less (snd (snd (cs ! j))) br" if "j < length cs" "usable (cs ! j)" for j
    proof (cases "bm = None")
      case True
      with assms b have "br = PInf"
        "list_all (\<lambda>c. \<not> (usable c \<and> fl_less (snd (snd c)) PInf)) cs"
        by (auto simp: first_lowest_def)
      with that show ?thesis by (auto simp: list_all_length)
    next
      case False
      with assms b that show ?thesis by (auto simp: first_lowest_def)
    qed
    have a: "\<forall>j < length (cs @ [c]). usable ((cs @ [c]) ! j) \<longrightarrow>
               \<not> fl_less (snd (snd ((cs @ [c]) ! j))) r"
    proof (intro allI impI)
      fix j assume j: "j < length (cs @ [c])" and u: "usable ((cs @ [c]) ! j)"
      show "\<not> fl_less (snd (snd ((cs @ [c]) ! j))) r"
      proof (cases "j < length cs")
        case True
        with u have "usable (cs ! j)" by (simp add: nth_append)
        from old[OF True this] \<open>m \<noteq> None \<and> fl_less r br\<close> True show ?thesis
          by (auto simp: nth_append dest: fl_less_trans)
      next
        case False
        with j have "j = length cs" by simp
        then show ?thesis by (simp add: c fl_less_irrefl)
      qed
    qed
    have e: "\<forall>j < length cs. usable ((cs @ [c]) ! j) \<longrightarrow> \<not> fl_le (snd (snd ((cs @ [c]) ! j))) r"
    proof (intro allI impI)
      fix j assume j: "j < length cs" and u: "usable ((cs @ [c]) ! j)"
      then have "usable (cs ! j)" by (simp add: nth_append)
      from old[OF j this] \<open>m \<noteq> None \<and> fl_less r br\<close> j
      show "\<not> fl_le (snd (snd ((cs @ [c]) ! j))) r"
        by (auto simp: nth_append dest: fl_le_less_trans)
    qed
    have "length cs < length (cs @ [c]) \<and> (cs @ [c]) ! length cs = (n, m, r)"
      by (simp add: c)
    with a e True show ?thesis
      unfolding kb first_lowest_def prod.case by blast
  next
    case False
    then have kb: "keep_best b c = (bm, br, bn)" by (auto simp: keep_best_def b c)
    show ?thesis
    proof (cases "bm = None")
      case True
      with assms b have br: "br = PInf"
        and all: "list_all (\<lambda>c. \<not> (usable c \<and> fl_less (snd (snd c)) PInf)) cs"
        by (auto simp: first_lowest_def)
      from False br have "\<not> (usable c \<and> fl_less (snd (snd c)) PInf)"
        by (auto simp: c usable_def)
      with all True br show ?thesis
        unfolding kb first_lowest_def by simp
    next
      case nn: False
      with assms b obtain i where i: "i < length cs" "cs ! i = (bn, bm, br)"
        "\<forall>j < length cs. usable (cs ! j) \<longrightarrow> \<not> fl_less (snd (snd (cs ! j))) br"
        "\<forall>j < i. usable (cs ! j) \<longrightarrow> \<not> fl_le (snd (snd (cs ! j))) br"
        by (auto simp: first_lowest_def)
      have a: "\<forall>j < length (cs @ [c]). usable ((cs @ [c]) ! j) \<longrightarrow>
               \<not> fl_less (snd (snd ((cs @ [c]) ! j))) br"
      proof (intro allI impI)
        fix j assume j: "j < length (cs @ [c])" and u: "usable ((cs @ [c]) ! j)"
        show "\<not> fl_less (snd (snd ((cs @ [c]) ! j))) br"
        proof (cases "j < length cs")
          case True
          with u i(3) show ?thesis by (simp add: nth_append)
        next
          case jl: False
          with j have "j = length cs" by simp
          with u False show ?thesis by (auto simp: c usable_def)
        qed
      qed
      have e: "\<forall>j < i. usable ((cs @ [c]) ! j) \<longrightarrow> \<not> fl_le (snd (snd ((cs @ [c]) ! j))) br"
        using i(1,4) by (simp add: nth_append)
      have "i < length (cs @ [c]) \<and> (cs @ [c]) ! i = (bn, bm, br)"
        using i(1,2) by (simp add: nth_append)
      with a e nn show ?thesis
        unfolding kb first_lowest_def prod.case by blast
    qed
  qed
qed

lemma foldl_keep_best_first_lowest:
  "first_lowest cs (foldl keep_best (None, PInf, []) cs)"
proof (induction cs rule: rev_induct)
  case Nil
  show ?case by (simp add: first_lowest_def)
next
  case (snoc c cs)
  then show ?case by (simp add: keep_best_first_lowest)
qed

lemma unpacked_three:
  "unpacked t =
     unpacked_of t (''Random Forest'', train_random_forest)
     @ unpacked_of t (''Ridge Regression'', train_ridge_regression)
     @ unpacked_of t (''ARIMA'', train_arima)"
  by (simp add: unpacked_def models_to_train_def)
     (simp add: unpacked_of_def lstm_never_unpacks)

lemma selection_first_lowest:
  "first_lowest (unpacked t) (best_of (foldl (select_step t) initial_selection models_to_train))"
proof -
  have "best_of initial_selection = (None, PInf, [])"
    by (simp add: best_of_def initial_selection_def)
  then show ?thesis
    unfolding selection_best unpacked_def[symmetric] by (simp add: foldl_keep_best_first_lowest)
qed

lemma train_and_select_best_value:
  "train_and_select_best t =
     (case best_of (foldl (select_step t) initial_selection models_to_train) of
        (bm, br, bn) \<Rightarrow> if bm = None then (None, PInf, ''Persistence'') else (bm, br, bn))"
  by (simp add: train_and_select_best_def best_of_def Let_def)

text \<open>
  The result of \<open>train_and_select_best\<close>: the persistence fallback when no candidate that
  unpacks has a model and an RMSE below infinity, else the first candidate of lowest RMSE
  among those that unpack.
\<close>

lemma train_and_select_best_first_lowest:
  "(case train_and_select_best t of (bm, br, bn) \<Rightarrow>
      (bm = None \<and> br = PInf \<and> bn = ''Persistence''
        \<and> list_all (\<lambda>c. \<not> (usable c \<and> fl_less (snd (snd c)) PInf)) (unpacked t))
    \<or> (bm \<noteq> None \<and> first_lowest (unpacked t) (bm, br, bn)))"
proof -
  obtain bm br bn where b:
    "best_of (foldl (select_step t) initial_selection models_to_train) = (bm, br, bn)"
    by (cases "best_of (foldl (select_step t) initial_selection models_to_train)") auto
  from selection_first_lowest[of t] have fl: "first_lowest (unpacked t) (bm, br, bn)"
    unfolding b .
  show ?thesis
  proof (cases "bm = None")
    case True
    with fl have "list_all (\<lambda>c. \<not> (usable c \<and> fl_less (snd (snd c)) PInf)) (unpacked t)"
      by (auto simp: first_lowest_def)
    with True show ?thesis
      unfolding train_and_select_best_value b by simp
  next
    case False
    then have "(if bm = None then (None, PInf, ''Persistence'') else (bm, br, bn)) = (bm, br, bn)"
      by (cases bm) auto
    with fl False show ?thesis
      unfolding train_and_select_best_value b prod.case by (simp only: prod.case) blast
  qed
qed

lemma all_fits_raise:
  assumes "fit_random_forest (learn t) (prepare_ml_data (df t) (test_size t)) = Inl e1"
      and "fit_ridge (learn t) (prepare_ml_data (df t) (test_size t)) = Inl e2"
      and "fit_arima (learn t) (arima_split (df t) (test_size t)) = Inl e3"
  shows "train_and_select_best t = (None, PInf, ''Persistence'')"
  unfolding train_and_select_best_def selection_loop
  using assms
  by (simp add: select_step_def train_random_forest_def train_ridge_regression_def
      train_arima_def initial_selection_def Let_def)

section \<open>Forecaster: the dropped prediction\<close>

lemma flat_seed_value: "lag_cells flat_history 30 30 = replicate 30 (Fin 100)"
proof (rule nth_equalityI)
  show "length (lag_cells flat_history 30 30) = length (replicate 30 (Fin 100))"
    by (simp add: length_lag_cells)
next
  fix j assume "j < length (lag_cells flat_history 30 30)"
  then have j: "j < 30" by (simp add: length_lag_cells)
  have len: "length flat_history = 31" by (simp add: flat_history_def)
  have "lag_cells flat_history 30 30 ! (Suc j - 1) = flat_history ! (30 - Suc j)"
    using j by (intro lag_cells_nth) (simp_all add: len)
  moreover have "flat_history ! (30 - Suc j) = Fin 100"
    unfolding flat_history_def by (rule nth_replicate) simp
  ultimately show "lag_cells flat_history 30 30 ! j = replicate 30 (Fin 100) ! j"
    using j by simp
qed

lemma flat_update:
  "update_features (replicate 30 (Fin 100)) (Fin 50) = Inr (Fin 50 # replicate 29 (Fin 100))"
proof -
  have len: "length (replicate 30 (Fin 100 :: pyfloat)) = 30" by simp
  from update_features_shifts[OF len, of "Fin 50"] obtain fs' where
    u: "update_features (replicate 30 (Fin 100)) (Fin 50) = Inr fs'" "length fs' = 30"
       "fs' ! 0 = Fin 50"
       "\<forall>i. 1 \<le> i \<and> i < 30 \<longrightarrow> fs' ! i = replicate 30 (Fin 100) ! (i - 1)"
    by blast
  have "fs' = Fin 50 # replicate 29 (Fin 100)"
  proof (rule nth_equalityI)
    show "length fs' = length (Fin 50 # replicate 29 (Fin 100))" using u(2) by simp
  next
    fix i assume "i < length fs'"
    then have i: "i < 30" using u(2) by simp
    show "fs' ! i = (Fin 50 # replicate 29 (Fin 100)) ! i"
    proof (cases i)
      case 0
      with u(3) show ?thesis by simp
    next
      case (Suc k)
      with i u(4) have "fs' ! i = replicate 30 (Fin 100) ! (i - 1)" by simp
      with Suc i show ?thesis by simp
    qed
  qed
  with u(1) show ?thesis by simp
qed

lemma flat_two_steps:
  "forecast_loop fails_second 1 ([], replicate 30 (Fin 100))
     = Inr ([Fin 50], Fin 50 # replicate 29 (Fin 100))"
  "predict fails_second (Fin 50 # replicate 29 (Fin 100)) = Inl ValueError"
  by (simp_all add: forecast_step_def fails_second_def flat_update)

text \<open>
  C4, as stated, fails: on a history of 31 prices of 100 and a horizon of 2, with a model
  whose first prediction is 50 and whose second prediction raises, the first step
  produces 50, and the returned path is \<open>[100, 100]\<close>: the prediction made before the
  failure is not kept.
\<close>

theorem C4_earlier_predictions_dropped:
  "new_forecaster (Some fails_second) flat_history = Inr failing_forecaster
   \<and> get_last_features failing_forecaster = Inr (replicate 30 (Fin 100))
   \<and> forecast_loop fails_second 1 ([], replicate 30 (Fin 100))
       = Inr ([Fin 50], Fin 50 # replicate 29 (Fin 100))
   \<and> predict fails_second (Fin 50 # replicate 29 (Fin 100)) = Inl ValueError
   \<and> recursive_forecast_ml failing_forecaster 2 = [Fin 100, Fin 100]
   \<and> recursive_forecast_ml failing_forecaster 2 \<noteq> [Fin 50, Fin 100]"
proof -
  have seed: "get_last_features failing_forecaster = Inr (replicate 30 (Fin 100))"
    using flat_seed by (simp only: flat_seed_value)
  have m: "fc_model failing_forecaster = Some fails_second"
    by (simp add: failing_forecaster_def)
  have "(1::nat) < 2" by simp
  from failed_step_fails_body[OF m seed flat_two_steps this]
  have "recursive_forecast_ml failing_forecaster 2 = replicate 2 (current_price failing_forecaster)"
    by (simp add: recursive_forecast_ml_def)
  then have r: "recursive_forecast_ml failing_forecaster 2 = [Fin 100, Fin 100]"
    by (simp add: failing_forecaster_def numeral_2_eq_2)
  have n: "new_forecaster (Some fails_second) flat_history = Inr failing_forecaster"
    by (simp add: new_forecaster_def failing_forecaster_def flat_history_def)
  have "recursive_forecast_ml failing_forecaster 2 \<noteq> [Fin 50, Fin 100]"
    by (simp only: r) simp
  with n seed flat_two_steps r show ?thesis by blast
qed

end
